theory Spec2Isabelle
  imports Main "HOL-Library.AList" "HOL-Library.Sublist"
begin

text \<open>
  A verification development for \<^verbatim>\<open>utils/diff_model_converter.py\<close>: the class finder's
  dependency bookkeeping, the case-preserving renamer, the super-call resolver and the
  converter that assembles the output module.  Source text is modelled as \<open>string\<close>
  (ASCII); Python dicts whose order matters are association lists, the others are maps;
  every exception the source raises is a value of the type \<open>error\<close>.
\<close>

section \<open>The class finder: dependency bookkeeping\<close>

text \<open>
  \<^verbatim>\<open>ClassFinder.class_dependency_mapping\<close> is a Python dict from a symbol name to the set of
  names it depends on.  It is modelled as a map from names to sets of names; a key that is
  absent in the dict is \<open>None\<close>.
\<close>

type_synonym dep_map = "string \<rightharpoonup> string set"

text \<open>\<^verbatim>\<open>mapping.get(key, set())\<close>: the recorded set, or the empty set for an absent key.\<close>

definition dep_get :: "dep_map \<Rightarrow> string \<Rightarrow> string set" where
  "dep_get mp key = (case mp key of None \<Rightarrow> {} | Some s \<Rightarrow> s)"

text \<open>
  \<^verbatim>\<open>
  def _update_class_dependency(self, name, value):
      dep = set(self.class_dependency_mapping.get(value, set()))
      dep |= set(self.class_dependency_mapping.get(name, {})) | set({value})
      self.class_dependency_mapping[name] = dep
  \<close>
\<close>

definition update_class_dependency :: "dep_map \<Rightarrow> string \<Rightarrow> string \<Rightarrow> dep_map" where
  "update_class_dependency mp name val =
     mp(name \<mapsto> dep_get mp val \<union> (dep_get mp name \<union> {val}))"

text \<open>
  \<^verbatim>\<open>visit_ClassDef\<close> calls the update once per declared base, in order
  (registering the class node itself does not touch the dependency mapping).
\<close>

fun visit_ClassDef_deps :: "dep_map \<Rightarrow> string \<Rightarrow> string list \<Rightarrow> dep_map" where
  "visit_ClassDef_deps mp name [] = mp"
| "visit_ClassDef_deps mp name (b # bs) =
     visit_ClassDef_deps (update_class_dependency mp name b) name bs"

text \<open>A sequence of class definitions (name, bases), processed in source order.\<close>

fun visit_classes :: "dep_map \<Rightarrow> (string \<times> string list) list \<Rightarrow> dep_map" where
  "visit_classes mp [] = mp"
| "visit_classes mp ((name, bases) # cs) = visit_classes (visit_ClassDef_deps mp name bases) cs"

text \<open>
  Every other dependency source of the finder (\<^verbatim>\<open>leave_Name\<close>, \<^verbatim>\<open>leave_Arg\<close>,
  \<^verbatim>\<open>leave_Dict\<close>, \<^verbatim>\<open>leave_Decorator\<close>) changes the mapping only through
  \<^verbatim>\<open>_update_class_dependency\<close>, so a whole traversal is a sequence of such calls.
\<close>

fun traversal :: "dep_map \<Rightarrow> (string \<times> string) list \<Rightarrow> dep_map" where
  "traversal mp [] = mp"
| "traversal mp ((name, val) # us) = traversal (update_class_dependency mp name val) us"

section \<open>Source text and the regular expressions of the converter\<close>

text \<open>The exceptions of the converter, with the message where the source builds one.\<close>

datatype error =
    ValueError string
  | ImportError string
  | KeyError string
  | AttributeError
  | TypeError
  | OSError
  | ParserSyntaxError

definition newline :: char where
  "newline = CHR 0x0A"

text \<open>The ASCII characters that Python's \<^verbatim>\<open>\s\<close> matches; \<^verbatim>\<open>\S\<close> is the complement.\<close>

definition is_space :: "char \<Rightarrow> bool" where
  "is_space c = (c \<in> set [CHR 0x09, CHR 0x0A, CHR 0x0B, CHR 0x0C, CHR 0x0D,
                           CHR 0x1C, CHR 0x1D, CHR 0x1E, CHR 0x1F, CHR 0x20])"

text \<open>The part of a text that \<^verbatim>\<open>.*\<close> can run over: up to the first newline.\<close>

definition line_of :: "string \<Rightarrow> string" where
  "line_of s = takeWhile (\<lambda>c. c \<noteq> newline) s"

text \<open>
  \<^verbatim>\<open>re.search(r"_(\S*)", s)\<close>: the leftmost underscore, and as group the longest run of
  non-whitespace characters after it; \<open>None\<close> when the text has no underscore.
\<close>

fun model_name_search :: "string \<Rightarrow> string option" where
  "model_name_search [] = None"
| "model_name_search (c # cs) =
     (if c = CHR ''_'' then Some (takeWhile (\<lambda>d. \<not> is_space d) cs) else model_name_search cs)"

text \<open>
  \<^verbatim>\<open>
  model_name = re.search(r"_(\S*)", super_file_name)
  if model_name:
      model_name = model_name.groups()[0]
  else:
      raise ValueError(
          f"Tried parsing the name of the imported package from {super_file_name}, could not extract the model name"
      )
  \<close>
\<close>

definition extract_model_name :: "string \<Rightarrow> error + string" where
  "extract_model_name super_file_name =
     (case model_name_search super_file_name of
        Some g \<Rightarrow> Inr g
      | None \<Rightarrow> Inl (ValueError (''Tried parsing the name of the imported package from ''
                  @ super_file_name @ '', could not extract the model name'')))"

text \<open>
  The reading of the specification: the same pattern applied to the trailing segment of the
  dotted path (the text after its last dot), so that the name is what follows the underscore of
  \<^verbatim>\<open>modeling_<name>\<close> or \<^verbatim>\<open>configuration_<name>\<close>.
\<close>

definition trailing_segment :: "string \<Rightarrow> string" where
  "trailing_segment path = rev (takeWhile (\<lambda>c. c \<noteq> CHR ''.'') (rev path))"

definition spec_model_name :: "string \<Rightarrow> string option" where
  "spec_model_name path = model_name_search (trailing_segment path)"

text \<open>
  \<^verbatim>\<open>re.search(r"transformers\.models\..*\.(modeling|configuration)_.*", s)\<close> and its group.
  After the literal prefix the greedy \<^verbatim>\<open>.*\<close> runs to the end of the line and backtracks, so the
  group is taken at the last place of that line where \<^verbatim>\<open>.modeling_\<close> or
  \<^verbatim>\<open>.configuration_\<close> stands (\<open>last_source\<close>); the search takes the leftmost start at which
  this succeeds.
\<close>

fun last_source :: "string \<Rightarrow> string option" where
  "last_source [] = None"
| "last_source (c # cs) =
     (case last_source cs of
        Some g \<Rightarrow> Some g
      | None \<Rightarrow>
          if prefix ''.modeling_'' (c # cs) then Some ''modeling''
          else if prefix ''.configuration_'' (c # cs) then Some ''configuration''
          else None)"

fun import_search :: "string \<Rightarrow> string option" where
  "import_search [] = None"
| "import_search (c # cs) =
     (if prefix ''transformers.models.'' (c # cs) then
        (case last_source (line_of (drop 20 (c # cs))) of
           Some g \<Rightarrow> Some g
         | None \<Rightarrow> import_search cs)
      else import_search cs)"

text \<open>
  \<^verbatim>\<open>re.search(r"[\s\S]*is_.*available", s)\<close> as a truth value: some \<^verbatim>\<open>is_\<close> is followed,
  before the next newline, by \<^verbatim>\<open>available\<close>.
\<close>

fun is_available_search :: "string \<Rightarrow> bool" where
  "is_available_search [] = False"
| "is_available_search (c # cs) =
     ((prefix ''is_'' (c # cs) \<and> sublist ''available'' (line_of (drop 3 (c # cs))))
      \<or> is_available_search cs)"

section \<open>Syntax trees\<close>

text \<open>
  The libcst nodes the converter looks at, with the fields it reads.  Source text that the
  code only renders and compares (\<^verbatim>\<open>code_for_node\<close>) is kept as a string.

  A statement of a method body is classified by the matchers of \<^verbatim>\<open>SuperTransformer\<close>:
  \<^item> \<open>ReturnSuper attr code\<close>: a line holding exactly \<^verbatim>\<open>return super().attr(...)\<close>;
  \<^item> \<open>ExprSuper attr code\<close>: a line holding exactly the expression \<^verbatim>\<open>super().attr(...)\<close>;
  \<^item> \<open>Docstring code\<close>: a line matching \<^verbatim>\<open>DOCSTRING_NODE\<close> (a triple-quoted string);
  \<^item> \<open>Stmt r code\<close>: any other statement; \<open>r\<close> tells whether it holds a return statement
    whose value is a call of an attribute named \<^verbatim>\<open>super\<close>, the pattern of \<^verbatim>\<open>leave_Return\<close>.
  In each case \<open>code\<close> is what \<^verbatim>\<open>code_for_node\<close> renders for the statement.
\<close>

datatype stmt =
    ReturnSuper string string
  | ExprSuper string string
  | Docstring string
  | Stmt bool string

fun stmt_code :: "stmt \<Rightarrow> string" where
  "stmt_code (ReturnSuper attr code) = code"
| "stmt_code (ExprSuper attr code) = code"
| "stmt_code (Docstring code) = code"
| "stmt_code (Stmt r code) = code"

record param =
  param_name :: string
  param_code :: string

text \<open>
  \<^verbatim>\<open>cst.Parameters\<close>: the positional parameters, the \<^verbatim>\<open>**kwargs\<close> slot, and the remaining
  slots (\<^verbatim>\<open>star_arg\<close>, keyword-only and positional-only parameters), which the code never reads.
\<close>

record parameters =
  params :: "param list"
  star_kwarg :: "param option"
  other_slots :: string

text \<open>A function definition; \<open>fd_header\<close> stands for its decorators and return annotation.\<close>

record funcdef =
  fd_name :: string
  fd_params :: parameters
  fd_body :: "stmt list"
  fd_header :: string

text \<open>
  An element of a class body: a method, a nested class (it has a \<^verbatim>\<open>name\<close> but no
  \<^verbatim>\<open>params\<close>), or any other statement.
\<close>

datatype member =
    Method funcdef
  | NestedClass string string
  | ClassStmt string

text \<open>
  A declared base of a class, as \<^verbatim>\<open>k.value.value\<close> sees it: a plain name gives a string; a
  dotted or subscripted base gives a node, which is never a key of a dict of names; a call has no
  \<^verbatim>\<open>value\<close> attribute.
\<close>

datatype base = NameBase string | NodeBase string | CallBase string

record classdef =
  cd_name :: string
  cd_bases :: "base list"
  cd_body :: "member list"

datatype module_ref = NoModule | NameModule string | AttributeModule string

text \<open>
  An import alias renders its name first, then the \<^verbatim>\<open>as\<close> part and the comma (\<open>alias_rest\<close>).
\<close>

record import_alias =
  alias_name :: string
  alias_rest :: string

definition alias_code :: "import_alias \<Rightarrow> string" where
  "alias_code a = alias_name a @ alias_rest a"

datatype import_names = ImportStar | ImportAliases "import_alias list"

record import_from =
  from_module :: module_ref
  from_names :: import_names

text \<open>
  A top-level statement of a module.  The model covers modules whose import-from statements and
  class definitions stand at the top level (the source says of class definitions: ``We don't have
  non global scope class defs in transformers''), whose simple statement lines hold one small
  statement, and whose assignments have a plain name as first target.
  \<^item> \<open>AssignLine target code\<close>: \<open>target\<close> is the first assignment target;
  \<^item> \<open>OtherLine code\<close>: \<open>code\<close> renders the small statement \<^verbatim>\<open>body[0]\<close>;
  \<^item> \<open>IfBlock test\<close>: \<open>test\<close> renders the condition of a top-level \<^verbatim>\<open>if\<close>.
\<close>

datatype node =
    ImportLine string
  | ImportFromLine import_from
  | AssignLine string string
  | OtherLine string
  | FunctionDef funcdef
  | ClassDef classdef
  | IfBlock string string

section \<open>The super-call resolver\<close>

text \<open>\<^verbatim>\<open>str.strip()\<close> on ASCII text.\<close>

definition strip :: "string \<Rightarrow> string" where
  "strip s = rev (dropWhile is_space (rev (dropWhile is_space s)))"

text \<open>Assigning to a key of a Python dict keeps the position of a key that is present.\<close>

definition dict_set :: "'k \<Rightarrow> 'v \<Rightarrow> ('k \<times> 'v) list \<Rightarrow> ('k \<times> 'v) list" where
  "dict_set k v d = AList.update k v d"

text \<open>\<^verbatim>\<open>d.update(d2)\<close>: the items of \<open>d2\<close> are assigned in order.\<close>

definition dict_update :: "('k \<times> 'v) list \<Rightarrow> ('k \<times> 'v) list \<Rightarrow> ('k \<times> 'v) list" where
  "dict_update d d2 = foldl (\<lambda>acc (k, v). dict_set k v acc) d d2"

text \<open>\<^verbatim>\<open>{key(x): x for x in xs}\<close>\<close>

definition dict_by :: "('v \<Rightarrow> 'k) \<Rightarrow> 'v list \<Rightarrow> ('k \<times> 'v) list" where
  "dict_by key xs = foldl (\<lambda>acc x. dict_set (key x) x acc) [] xs"

fun is_docstring :: "stmt \<Rightarrow> bool" where
  "is_docstring (Docstring code) = True"
| "is_docstring other = False"

text \<open>
  \<^verbatim>\<open>
  def update_body(self, existing_body, new_statements):
      deduplicated_new_body = []
      existing_nodes = {
          self.python_module.code_for_node(node).strip() for node in new_statements if isinstance(node, cst.CSTNode)
      }
      for stmt in existing_body:
          if self.python_module.code_for_node(stmt).strip() not in existing_nodes:
              if m.matches(stmt, DOCSTRING_NODE) and self.has_docstring:
                  continue
              deduplicated_new_body.append(stmt)
              existing_nodes.add(stmt)
          else:
              logger.info(f"\nFound duplicate {self.python_module.code_for_node(stmt)}")
      return deduplicated_new_body
  \<close>
  \<^verbatim>\<open>existing_nodes.add(stmt)\<close> adds a node, not a text, to a set of texts: no later text
  comparison can find it, so the set of texts stays as it was built.
\<close>

definition update_body :: "bool \<Rightarrow> stmt list \<Rightarrow> stmt list \<Rightarrow> stmt list" where
  "update_body has_docstring existing_body new_statements =
     filter (\<lambda>stmt. strip (stmt_code stmt) \<notin> set (map (\<lambda>n. strip (stmt_code n)) new_statements)
                    \<and> \<not> (is_docstring stmt \<and> has_docstring))
            existing_body"

text \<open>The matcher of \<^verbatim>\<open>replace_super_calls\<close>: a return or an expression calling \<^verbatim>\<open>super().func_name\<close>.\<close>

fun is_super_call :: "string \<Rightarrow> stmt \<Rightarrow> bool" where
  "is_super_call func_name (ReturnSuper attr code) = (attr = func_name)"
| "is_super_call func_name (ExprSuper attr code) = (attr = func_name)"
| "is_super_call func_name other = False"

text \<open>
  \<^verbatim>\<open>
  def replace_super_calls(self, node, func_name):
      new_body = []
      self.has_docstring = False
      for expr in node.body:
          self.has_docstring = m.matches(node.body[0], DOCSTRING_NODE)
          if m.matches(expr, <return or expression calling super().func_name>):
              new_body.extend(self.update_body(self.original_methods[func_name].body.body, node.body))
          else:
              new_body.append(expr)
      return node.with_changes(body=new_body)
  \<close>
  \<open>original_body\<close> is \<^verbatim>\<open>self.original_methods[func_name].body.body\<close>, which the callers
  look up.  The loop reads \<^verbatim>\<open>node.body[0]\<close> only when the body is not empty.
\<close>

fun replace_super_calls :: "stmt list \<Rightarrow> stmt list \<Rightarrow> string \<Rightarrow> stmt list" where
  "replace_super_calls original_body [] func_name = []"
| "replace_super_calls original_body (first # rest) func_name =
     concat (map (\<lambda>expr.
        if is_super_call func_name expr
        then update_body (is_docstring first) original_body (first # rest)
        else [expr]) (first # rest))"

text \<open>
  The keys of \<^verbatim>\<open>{f.name.value if hasattr(f, "name") else f: f for f in body}\<close>: the name of a
  method or nested class, or the node itself.  Nodes are equal by identity only, so a node key is
  its position in the class body, and a node key of one class is never a key of another class.
\<close>

datatype mkey = Named string | Anon nat

fun member_key :: "nat \<times> member \<Rightarrow> mkey" where
  "member_key (i, Method f) = Named (fd_name f)"
| "member_key (i, NestedClass name code) = Named name"
| "member_key (i, ClassStmt code) = Anon i"

definition methods_dict :: "member list \<Rightarrow> (mkey \<times> member) list" where
  "methods_dict body =
     foldl (\<lambda>acc (i, f). dict_set (member_key (i, f)) f acc) [] (enumerate 0 body)"

text \<open>\<^verbatim>\<open>name in updated_methods\<close> for a key of the original class.\<close>

fun lookup_updated :: "(mkey \<times> member) list \<Rightarrow> mkey \<Rightarrow> member option" where
  "lookup_updated updated_methods (Named name) = map_of updated_methods (Named name)"
| "lookup_updated updated_methods (Anon i) = None"

text \<open>
  \<^verbatim>\<open>
  new_params = updated_methods[name].params
  kwarg_name = getattr(updated_methods[name].params, "star_kwarg", None)
  if kwarg_name and kwarg_name.name.value == "super_kwargs":
      parent_params = {k.name.value: k for k in func.params.params}
      parent_params.update({k.name.value: k for k in new_params.params[1:]})
      new_params = new_params.with_changes(
          params=list(parent_params.values()), star_kwarg=func.params.star_kwarg
      )
  \<close>
  Here \<open>func\<close> is the method of the original (base) class and \<open>upd\<close> the override.
\<close>

definition declares_super_kwargs :: "parameters \<Rightarrow> bool" where
  "declares_super_kwargs ps =
     (case star_kwarg ps of None \<Rightarrow> False | Some k \<Rightarrow> param_name k = ''super_kwargs'')"

definition merge_params :: "funcdef \<Rightarrow> funcdef \<Rightarrow> parameters" where
  "merge_params func upd =
     (let new_params = fd_params upd in
      if declares_super_kwargs new_params then
        (let parent_params = dict_by param_name (params (fd_params func));
             parent_params' = dict_update parent_params (dict_by param_name (tl (params new_params)))
         in new_params\<lparr>params := map snd parent_params',
                        star_kwarg := star_kwarg (fd_params func)\<rparr>)
      else new_params)"

text \<open>
  One turn of the loop that builds \<^verbatim>\<open>end_meth\<close>:
  \<^verbatim>\<open>
  for name, func in original_methods.items():
      if name in updated_methods and updated_methods[name] is not None:
          <new_params as above>
          func = func.with_changes(body=updated_methods[name].body, params=new_params)
      end_meth.append(func)
  \<close>
  A nested class of the diff class has no \<^verbatim>\<open>params\<close> (AttributeError).  When the member of the
  original class is not a method, \<^verbatim>\<open>func.params\<close> fails (AttributeError) or, when it is not
  read, \<^verbatim>\<open>with_changes\<close> refuses the field \<^verbatim>\<open>params\<close> (TypeError).
\<close>

fun merge_member :: "(mkey \<times> member) list \<Rightarrow> mkey \<times> member \<Rightarrow> error + member" where
  "merge_member updated_methods (name, func) =
     (case lookup_updated updated_methods name of
        None \<Rightarrow> Inr func
      | Some (Method upd) \<Rightarrow>
          (case func of
             Method f \<Rightarrow> Inr (Method (f\<lparr>fd_body := fd_body upd, fd_params := merge_params f upd\<rparr>))
           | other \<Rightarrow>
               if declares_super_kwargs (fd_params upd) then Inl AttributeError else Inl TypeError)
      | Some other \<Rightarrow> Inl AttributeError)"

text \<open>Running a fallible step over a list; the first exception ends the run.\<close>

fun map_result :: "('a \<Rightarrow> error + 'b) \<Rightarrow> 'a list \<Rightarrow> error + 'b list" where
  "map_result f [] = Inr []"
| "map_result f (x # xs) =
     (case f x of
        Inl e \<Rightarrow> Inl e
      | Inr y \<Rightarrow> (case map_result f xs of Inl e \<Rightarrow> Inl e | Inr ys \<Rightarrow> Inr (y # ys)))"

text \<open>
  \<^verbatim>\<open>leave_Return\<close>: its pattern \<^verbatim>\<open>m.Call(func=m.Attribute(attr=m.Name("super")))\<close> asks for a
  call of an attribute that is itself named \<^verbatim>\<open>super\<close>.  When it matches, the next line reads
  \<^verbatim>\<open>m.matched\<close>, a name the matchers module does not have: AttributeError.  Otherwise the return
  statement is left as it is.
\<close>

fun holds_attr_super_return :: "stmt \<Rightarrow> bool" where
  "holds_attr_super_return (ReturnSuper attr code) = (attr = ''super'')"
| "holds_attr_super_return (Stmt r code) = r"
| "holds_attr_super_return other = False"

text \<open>
  \<^verbatim>\<open>
  def leave_FunctionDef(self, original_node, updated_node):
      if updated_node.name.value in self.updated_methods:
          name = updated_node.name.value
          new_body = self.replace_super_calls(updated_node.body, name)
          return updated_node.with_changes(body=new_body, params=updated_node.params)
      return updated_node
  \<close>
  \<^verbatim>\<open>self.original_methods[func_name]\<close> is read only when a super call is met.
\<close>

definition leave_FunctionDef_super ::
  "(mkey \<times> member) list \<Rightarrow> (mkey \<times> member) list \<Rightarrow> funcdef \<Rightarrow> error + funcdef" where
  "leave_FunctionDef_super original_methods updated_methods f =
     (if map_of updated_methods (Named (fd_name f)) = None then Inr f
      else if \<not> list_ex (is_super_call (fd_name f)) (fd_body f) then Inr f
      else (case map_of original_methods (Named (fd_name f)) of
              None \<Rightarrow> Inl (KeyError (fd_name f))
            | Some (Method orig) \<Rightarrow>
                Inr (f\<lparr>fd_body := replace_super_calls (fd_body orig) (fd_body f) (fd_name f)\<rparr>)
            | Some other \<Rightarrow> Inl AttributeError))"

text \<open>
  The visit of one member of the merged class: the return statements of a method are left
  first, then the method itself.  A nested class and a plain statement are opaque here.
\<close>

fun visit_member ::
  "(mkey \<times> member) list \<Rightarrow> (mkey \<times> member) list \<Rightarrow> member \<Rightarrow> error + member" where
  "visit_member original_methods updated_methods (Method f) =
     (if list_ex holds_attr_super_return (fd_body f) then Inl AttributeError
      else (case leave_FunctionDef_super original_methods updated_methods f of
              Inl e \<Rightarrow> Inl e
            | Inr f' \<Rightarrow> Inr (Method f')))"
| "visit_member original_methods updated_methods other = Inr other"

text \<open>
  \<^verbatim>\<open>
  def replace_call_to_super(class_finder, updated_node, class_name):
      original_node = class_finder.classes[class_name]
      original_methods = {f.name.value if hasattr(f, "name") else f: f for f in original_node.body.body}
      updated_methods = {f.name.value if hasattr(f, "name") else f: f for f in updated_node.body.body}
      end_meth = []
      <the loop above>
      result_node = original_node.with_changes(body=cst.IndentedBlock(body=end_meth))
      temp_module = cst.Module(body=[result_node])
      new_module = MetadataWrapper(temp_module)
      new_replacement_class = new_module.visit(SuperTransformer(temp_module, original_methods, updated_methods))
      new_replacement_body = new_replacement_class.body[0].body
      return original_node.with_changes(body=new_replacement_body)
  \<close>
  \<open>classes\<close> is \<^verbatim>\<open>class_finder.classes\<close>.
\<close>

definition replace_call_to_super ::
  "(string \<rightharpoonup> classdef) \<Rightarrow> classdef \<Rightarrow> string \<Rightarrow> error + classdef" where
  "replace_call_to_super classes updated_node class_name =
     (case classes class_name of
        None \<Rightarrow> Inl (KeyError class_name)
      | Some original_node \<Rightarrow>
          (let original_methods = methods_dict (cd_body original_node);
               updated_methods = methods_dict (cd_body updated_node)
           in case map_result (merge_member updated_methods) original_methods of
                Inl e \<Rightarrow> Inl e
              | Inr end_meth \<Rightarrow>
                  (case map_result (visit_member original_methods updated_methods) end_meth of
                     Inl e \<Rightarrow> Inl e
                   | Inr new_replacement_body \<Rightarrow>
                       Inr (original_node\<lparr>cd_body := new_replacement_body\<rparr>))))"

section \<open>The converter\<close>

text \<open>
  What \<^verbatim>\<open>find_classes_in_file\<close> returns: the maps a \<^verbatim>\<open>ClassFinder\<close> has filled after its
  visit of a renamed module.  A dependency set is given by the list of its elements in the order
  in which Python iterates over the set.
\<close>

record class_finder =
  cf_classes :: "string \<rightharpoonup> classdef"
  cf_assignments :: "string \<rightharpoonup> node"
  cf_function_def :: "string \<rightharpoonup> node"
  cf_imports :: "node list"
  class_dependency_mapping :: "string \<rightharpoonup> string list"
  class_start_line :: "string \<rightharpoonup> int"

text \<open>\<^verbatim>\<open>self.global_nodes = {**self.assignments, **self.classes, **self.function_def}\<close>\<close>

definition global_nodes :: "class_finder \<Rightarrow> (string \<rightharpoonup> node)" where
  "global_nodes cf =
     cf_assignments cf ++ (\<lambda>name. map_option ClassDef (cf_classes cf name)) ++ cf_function_def cf"

text \<open>
  The collaborators of the converter, which it calls and does not define: loading and parsing
  the module of a dotted path (\<^verbatim>\<open>cst.parse_module(get_module_source_from_name(path))\<close>, which
  can raise), the renaming and analysis of such a module, the rendering of a node and of a
  module, the parser of the diff file, the formatter and the banner text.
\<close>

record 'tree env =
  load_module :: "string \<Rightarrow> error + 'tree"
  find_classes_in_file :: "'tree \<Rightarrow> string \<Rightarrow> string \<Rightarrow> class_finder"
  code_for_node :: "node \<Rightarrow> string"
  module_code :: "node list \<Rightarrow> string"
  parse_module :: "string \<Rightarrow> error + node list"
  run_ruff :: "string \<Rightarrow> bool \<Rightarrow> string"
  auto_generated_message :: string

text \<open>
  A key of \<^verbatim>\<open>new_body\<close>: a name or a rendered statement, or (in \<^verbatim>\<open>leave_If\<close>) a node, which
  is identified by the position of the statement in the module.
\<close>

datatype key = StrKey string | NodeKey nat

text \<open>
  The fields of \<^verbatim>\<open>DiffConverterTransformer\<close>.  \<open>new_body\<close> and \<open>visited_module\<close> are dicts
  whose order is read later; \<open>config_body\<close> is \<open>None\<close> as long as the attribute does not exist.
\<close>

record 'tree converter =
  model_name :: string
  transformers_imports :: "string \<rightharpoonup> 'tree"
  imported_mapping :: "string \<rightharpoonup> string"
  visited_module :: "(string \<times> class_finder) list"
  new_body :: "(key \<times> (int \<times> node)) list"
  inserted_deps :: "string list"
  all_imports :: "node list"
  global_scope_index :: int
  config_body :: "node list option"

definition init_converter :: "string \<Rightarrow> 'tree converter" where
  "init_converter new_name =
     \<lparr>model_name = new_name, transformers_imports = Map.empty, imported_mapping = Map.empty,
      visited_module = [], new_body = [], inserted_deps = [], all_imports = [],
      global_scope_index = 0, config_body = None\<rparr>"

text \<open>
  \<^verbatim>\<open>
  def visit_ImportFrom(self, node):
      import_statement = self.python_module.code_for_node(node.module)
      if m.matches(node.module, m.Attribute()):
          for imported_ in node.names:
              _import = re.search(r"transformers\.models\..*\.(modeling|configuration)_.*", import_statement)
              if _import:
                  source = _import.groups()[0]
                  if source == "modeling" and "Config" in self.python_module.code_for_node(imported_):
                      raise ValueError(
                          f"You are importing {self.python_module.code_for_node(imported_)} from the modeling file. Import from the `configuration_xxxx.py` file instead"
                      )
                  if import_statement not in self.transformers_imports:
                      source_code = get_module_source_from_name(import_statement)
                      tree = cst.parse_module(source_code)
                      self.transformers_imports[import_statement] = tree
                  imported_class = self.python_module.code_for_node(imported_.name)
                  self.imported_mapping[imported_class] = import_statement
  \<close>
  A relative import without a module has nothing to render (AttributeError); a star import of a
  dotted module cannot be iterated (TypeError).
\<close>

definition config_import_message :: "string \<Rightarrow> string" where
  "config_import_message imported =
     ''You are importing '' @ imported @ '' from the modeling file. Import from the ''
       @ [CHR 0x60] @ ''configuration_xxxx.py'' @ [CHR 0x60] @ '' file instead''"

fun visit_aliases ::
  "'tree env \<Rightarrow> string \<Rightarrow> 'tree converter \<Rightarrow> import_alias list \<Rightarrow> error + 'tree converter" where
  "visit_aliases env import_statement st [] = Inr st"
| "visit_aliases env import_statement st (imported # rest) =
     (case import_search import_statement of
        None \<Rightarrow> visit_aliases env import_statement st rest
      | Some source \<Rightarrow>
          if source = ''modeling'' \<and> sublist ''Config'' (alias_code imported)
          then Inl (ValueError (config_import_message (alias_code imported)))
          else
            (case (if transformers_imports st import_statement = None
                   then (case load_module env import_statement of
                           Inl e \<Rightarrow> Inl e
                         | Inr tree \<Rightarrow>
                             Inr (st\<lparr>transformers_imports :=
                                       (transformers_imports st)(import_statement \<mapsto> tree)\<rparr>))
                   else Inr st) of
               Inl e \<Rightarrow> Inl e
             | Inr st' \<Rightarrow>
                 visit_aliases env import_statement
                   (st'\<lparr>imported_mapping :=
                          (imported_mapping st')(alias_name imported \<mapsto> import_statement)\<rparr>)
                   rest))"

definition visit_ImportFrom ::
  "'tree env \<Rightarrow> 'tree converter \<Rightarrow> import_from \<Rightarrow> error + 'tree converter" where
  "visit_ImportFrom env st node =
     (case from_module node of
        NoModule \<Rightarrow> Inl AttributeError
      | NameModule import_statement \<Rightarrow> Inr st
      | AttributeModule import_statement \<Rightarrow>
          (case from_names node of
             ImportStar \<Rightarrow> Inl TypeError
           | ImportAliases names \<Rightarrow> visit_aliases env import_statement st names))"

text \<open>Threading a fallible step through a list, as a loop whose body may raise.\<close>

fun fold_result :: "('s \<Rightarrow> 'a \<Rightarrow> error + 's) \<Rightarrow> 's \<Rightarrow> 'a list \<Rightarrow> error + 's" where
  "fold_result f st [] = Inr st"
| "fold_result f st (x # xs) =
     (case f st x of Inl e \<Rightarrow> Inl e | Inr st' \<Rightarrow> fold_result f st' xs)"

text \<open>
  \<^verbatim>\<open>
  bases = [k.value.value for k in original_node.bases if k.value.value in self.imported_mapping]
  \<close>
\<close>

fun base_names :: "(string \<rightharpoonup> string) \<Rightarrow> base list \<Rightarrow> error + string list" where
  "base_names mapping [] = Inr []"
| "base_names mapping (NameBase name # ks) =
     (case base_names mapping ks of
        Inl e \<Rightarrow> Inl e
      | Inr names \<Rightarrow> Inr (if mapping name = None then names else name # names))"
| "base_names mapping (NodeBase code # ks) = base_names mapping ks"
| "base_names mapping (CallBase code # ks) = Inl AttributeError"

text \<open>
  \<^verbatim>\<open>
  list_dependencies = {
      dep: class_finder.class_start_line.get(dep, 1000)
      for dep in class_finder.class_dependency_mapping.get(class_name, [])
  }
  list_dependencies = sorted(list_dependencies.items(), key=lambda x: x[1], reverse=True)
  \<close>
  Python's sort is stable, also with \<^verbatim>\<open>reverse=True\<close>: a stable sort by descending line.
\<close>

definition list_dependencies :: "class_finder \<Rightarrow> string \<Rightarrow> (string \<times> int) list" where
  "list_dependencies cf class_name =
     sort_key (\<lambda>x. - snd x)
       (foldl (\<lambda>acc dep. dict_set dep
                 (case class_start_line cf dep of None \<Rightarrow> 1000 | Some line \<Rightarrow> line) acc)
          [] (case class_dependency_mapping cf class_name of None \<Rightarrow> [] | Some deps \<Rightarrow> deps))"

text \<open>
  \<^verbatim>\<open>
  for dependency, _ in list_dependencies:
      node = class_finder.global_nodes.get(dependency, None)
      if node is not None:
          if dependency not in self.new_body:
              start_insert_idx -= 1
              self.new_body[dependency] = {"insert_idx": start_insert_idx, "node": node}
          elif dependency not in self.inserted_deps:
              start_insert_idx = self.new_body[dependency]["insert_idx"] - 1
          self.inserted_deps.append(dependency)
  \<close>
  The loop state is \<open>(new_body, inserted_deps, start_insert_idx)\<close>.
\<close>

fun insert_dependencies ::
  "(string \<rightharpoonup> node) \<Rightarrow> string list \<Rightarrow> (key \<times> (int \<times> node)) list \<times> string list \<times> int
     \<Rightarrow> (key \<times> (int \<times> node)) list \<times> string list \<times> int" where
  "insert_dependencies nodes [] acc = acc"
| "insert_dependencies nodes (dependency # rest) (body, inserted, start_insert_idx) =
     (case nodes dependency of
        None \<Rightarrow> insert_dependencies nodes rest (body, inserted, start_insert_idx)
      | Some node \<Rightarrow>
          (case map_of body (StrKey dependency) of
             None \<Rightarrow>
               insert_dependencies nodes rest
                 (dict_set (StrKey dependency) (start_insert_idx - 1, node) body,
                  inserted @ [dependency], start_insert_idx - 1)
           | Some entry \<Rightarrow>
               if dependency \<notin> set inserted
               then insert_dependencies nodes rest (body, inserted @ [dependency], fst entry - 1)
               else insert_dependencies nodes rest (body, inserted @ [dependency], start_insert_idx)))"

definition import_error_message :: "string \<Rightarrow> string" where
  "import_error_message super_class =
     super_class @ '' was not imported using '' @ [CHR 0x60]
       @ ''from transformers.models.xxxxx.modeling_xxxx import '' @ super_class"

text \<open>
  \<^verbatim>\<open>
  if super_file_name not in self.visited_module:
      class_finder = find_classes_in_file(
          self.transformers_imports[super_file_name], model_name, self.model_name
      )
      self.visited_module[super_file_name] = class_finder
  else:
      class_finder = self.visited_module[super_file_name]
  \<close>
\<close>

definition get_class_finder ::
  "'tree env \<Rightarrow> 'tree converter \<Rightarrow> string \<Rightarrow> string \<Rightarrow> error + 'tree converter \<times> class_finder" where
  "get_class_finder env st super_file_name old_name =
     (case map_of (visited_module st) super_file_name of
        Some class_finder \<Rightarrow> Inr (st, class_finder)
      | None \<Rightarrow>
          (case transformers_imports st super_file_name of
             None \<Rightarrow> Inl (KeyError super_file_name)
           | Some tree \<Rightarrow>
               (let class_finder = find_classes_in_file env tree old_name (model_name st)
                in Inr (st\<lparr>visited_module :=
                           dict_set super_file_name class_finder (visited_module st)\<rparr>,
                        class_finder))))"

text \<open>
  One turn of the loop \<^verbatim>\<open>for super_class in bases\<close> of \<^verbatim>\<open>leave_ClassDef\<close>:
  \<^verbatim>\<open>
  if super_class not in self.imported_mapping:
      raise ImportError(
          f"{super_class} was not imported using `from transformers.models.xxxxx.modeling_xxxx import {super_class}"
      )
  super_file_name = self.imported_mapping[super_class]
  <model name, class finder, list_dependencies as above>
  start_insert_idx = self.global_scope_index
  <the insertion loop>
  if len(list_dependencies) > 0:
      updated_node = replace_call_to_super(class_finder, updated_node, class_name)
  \<close>
\<close>

definition process_base ::
  "'tree env \<Rightarrow> string \<Rightarrow> 'tree converter \<times> classdef \<Rightarrow> string
     \<Rightarrow> error + 'tree converter \<times> classdef" where
  "process_base env class_name acc super_class =
     (case acc of (st, updated_node) \<Rightarrow>
      (case imported_mapping st super_class of
         None \<Rightarrow> Inl (ImportError (import_error_message super_class))
       | Some super_file_name \<Rightarrow>
           (case extract_model_name super_file_name of
              Inl e \<Rightarrow> Inl e
            | Inr old_name \<Rightarrow>
                (case get_class_finder env st super_file_name old_name of
                   Inl e \<Rightarrow> Inl e
                 | Inr (st1, class_finder) \<Rightarrow>
                     (let deps = list_dependencies class_finder class_name;
                          (body, inserted, idx) =
                             insert_dependencies (global_nodes class_finder) (map fst deps)
                               (new_body st1, inserted_deps st1, global_scope_index st1);
                          st2 = st1\<lparr>new_body := body, inserted_deps := inserted\<rparr>
                      in if deps \<noteq> []
                         then (case replace_call_to_super (cf_classes class_finder)
                                      updated_node class_name of
                                 Inl e \<Rightarrow> Inl e
                               | Inr merged \<Rightarrow> Inr (st2, merged))
                         else Inr (st2, updated_node))))))"

text \<open>
  \<^verbatim>\<open>
  def leave_ClassDef(self, original_node, updated_node):
      class_name = original_node.name.value
      bases = [k.value.value for k in original_node.bases if k.value.value in self.imported_mapping]
      self.global_scope_index += 100
      for super_class in bases:
          <the turn above>
      if "Config" in class_name:
          self.config_body = [updated_node]
      else:
          self.new_body[class_name] = {"insert_idx": self.global_scope_index, "node": updated_node}
      return updated_node
  \<close>
\<close>

definition leave_ClassDef :: "'tree env \<Rightarrow> 'tree converter \<Rightarrow> classdef \<Rightarrow> error + 'tree converter" where
  "leave_ClassDef env st original_node =
     (let class_name = cd_name original_node in
      case base_names (imported_mapping st) (cd_bases original_node) of
        Inl e \<Rightarrow> Inl e
      | Inr bases \<Rightarrow>
          (case fold_result (process_base env class_name)
                  (st\<lparr>global_scope_index := global_scope_index st + 100\<rparr>, original_node) bases of
             Inl e \<Rightarrow> Inl e
           | Inr (st1, updated_node) \<Rightarrow>
               if sublist ''Config'' class_name
               then Inr (st1\<lparr>config_body := Some [ClassDef updated_node]\<rparr>)
               else Inr (st1\<lparr>new_body :=
                               dict_set (StrKey class_name)
                                 (global_scope_index st1, ClassDef updated_node) (new_body st1)\<rparr>)))"

text \<open>
  \<^verbatim>\<open>leave_FunctionDef\<close>, \<^verbatim>\<open>leave_SimpleStatementLine\<close> and \<^verbatim>\<open>leave_If\<close> for a statement
  whose parent is the module:
  \<^verbatim>\<open>
  self.global_scope_index += 100
  self.new_body[node_name] = {"insert_idx": self.global_scope_index, "node": updated_node}
  \<close>
\<close>

definition add_global :: "key \<Rightarrow> node \<Rightarrow> 'tree converter \<Rightarrow> 'tree converter" where
  "add_global node_name node st =
     st\<lparr>global_scope_index := global_scope_index st + 100,
        new_body := dict_set node_name (global_scope_index st + 100, node) (new_body st)\<rparr>"

text \<open>
  \<^verbatim>\<open>
  elif m.matches(updated_node, m.SimpleStatementLine(body=[m.ImportFrom()])):
      full_statement = self.python_module.code_for_node(updated_node.body[0].module)
      if re.search(r"transformers\.models\..*\.(modeling|configuration)_.*", full_statement):
          return cst.RemoveFromParent()
      if parent_node not in self.all_imports:
          self.all_imports.append(updated_node)
      return updated_node
  \<close>
  \<^verbatim>\<open>parent_node\<close> is the module, which is never an element of \<^verbatim>\<open>all_imports\<close>.
\<close>

definition leave_import_from :: "'tree converter \<Rightarrow> import_from \<Rightarrow> error + 'tree converter" where
  "leave_import_from st imp =
     (case from_module imp of
        NoModule \<Rightarrow> Inl AttributeError
      | NameModule full_statement \<Rightarrow>
          Inr (st\<lparr>all_imports := all_imports st @ [ImportFromLine imp]\<rparr>)
      | AttributeModule full_statement \<Rightarrow>
          if import_search full_statement \<noteq> None then Inr st
          else Inr (st\<lparr>all_imports := all_imports st @ [ImportFromLine imp]\<rparr>))"

text \<open>
  \<^verbatim>\<open>
  def leave_If(self, original_node, node):
      ...
      full_statement = self.python_module.code_for_node(original_node.test)
      if re.search(r"[\s\S]*is_.*available", full_statement):
          self.all_imports.append(node)
      elif full_statement not in self.new_body:
          self.new_body[node] = {"insert_idx": self.global_scope_index, "node": node}
      return node
  \<close>
\<close>

definition leave_If :: "'tree converter \<Rightarrow> nat \<Rightarrow> string \<Rightarrow> string \<Rightarrow> 'tree converter" where
  "leave_If st i full_statement code =
     (if is_available_search full_statement
      then st\<lparr>all_imports := all_imports st @ [IfBlock full_statement code]\<rparr>
      else if map_of (new_body st) (StrKey full_statement) = None
      then st\<lparr>new_body := dict_set (NodeKey i)
                    (global_scope_index st, IfBlock full_statement code) (new_body st)\<rparr>
      else st)"

text \<open>
  The visit of the \<open>i\<close>-th top-level statement: \<^verbatim>\<open>visit_ImportFrom\<close> runs on the way down,
  the \<^verbatim>\<open>leave_\<close> method of the statement on the way up.
\<close>

fun visit_statement :: "'tree env \<Rightarrow> 'tree converter \<Rightarrow> nat \<times> node \<Rightarrow> error + 'tree converter" where
  "visit_statement env st (i, ImportLine code) =
     Inr (st\<lparr>all_imports := all_imports st @ [ImportLine code]\<rparr>)"
| "visit_statement env st (i, ImportFromLine imp) =
     (case visit_ImportFrom env st imp of
        Inl e \<Rightarrow> Inl e
      | Inr st' \<Rightarrow> leave_import_from st' imp)"
| "visit_statement env st (i, AssignLine target code) =
     Inr (add_global (StrKey target) (AssignLine target code) st)"
| "visit_statement env st (i, OtherLine code) =
     Inr (add_global (StrKey code) (OtherLine code) st)"
| "visit_statement env st (i, FunctionDef f) =
     Inr (add_global (StrKey (fd_name f)) (FunctionDef f) st)"
| "visit_statement env st (i, ClassDef c) = leave_ClassDef env st c"
| "visit_statement env st (i, IfBlock test code) = Inr (leave_If st i test code)"

text \<open>
  \<^verbatim>\<open>
  def leave_Module(self, original_node, node):
      imports = {self.python_module.code_for_node(k): k for k in self.all_imports}
      dependency_imports = {}
      for visiter in self.visited_module.values():
          dependency_imports.update({self.python_module.code_for_node(k): k for k in visiter.imports.values()})
      if hasattr(self, "config_body"):
          self.config_body = list(imports.values()) + self.config_body
      dependency_imports.update(imports)
      new_body = list(dependency_imports.values())
      if len(self.new_body.keys()) > 0:
          new_body += [k[1]["node"] for k in sorted(self.new_body.items(), key=lambda x: x[1]["insert_idx"])]
      else:
          new_body = []
      return node.with_changes(body=[*new_body])
  \<close>
  The result is the body of the emitted module together with the final state.
\<close>

definition sorted_new_body :: "(key \<times> (int \<times> node)) list \<Rightarrow> node list" where
  "sorted_new_body body = map (\<lambda>k. snd (snd k)) (sort_key (\<lambda>x. fst (snd x)) body)"

definition leave_Module :: "'tree env \<Rightarrow> 'tree converter \<Rightarrow> node list \<times> 'tree converter" where
  "leave_Module env st =
     (let imports = dict_by (code_for_node env) (all_imports st);
          dependency_imports =
            foldl (\<lambda>acc visiter. dict_update acc (dict_by (code_for_node env) (cf_imports visiter)))
              [] (map snd (visited_module st));
          st' = st\<lparr>config_body := map_option (\<lambda>body. map snd imports @ body) (config_body st)\<rparr>;
          dependency_imports' = dict_update dependency_imports imports
      in (if new_body st \<noteq> []
          then map snd dependency_imports' @ sorted_new_body (new_body st)
          else [],
          st'))"

definition visit_module ::
  "'tree env \<Rightarrow> string \<Rightarrow> node list \<Rightarrow> error + node list \<times> 'tree converter" where
  "visit_module env new_name stmts =
     (case fold_result (visit_statement env) (init_converter new_name) (enumerate 0 stmts) of
        Inl e \<Rightarrow> Inl e
      | Inr st \<Rightarrow> Inr (leave_Module env st))"

section \<open>The driver\<close>

text \<open>
  \<^verbatim>\<open>re.search(r"diff_(.*)(?=\.py$)", diff_file)\<close>: \<^verbatim>\<open>$\<close> stands at the end of the text or before
  a newline that ends it; the group runs from the leftmost \<^verbatim>\<open>diff_\<close> after which no newline
  comes, up to the final \<^verbatim>\<open>.py\<close>.
\<close>

fun diff_search :: "string \<Rightarrow> string option" where
  "diff_search [] = None"
| "diff_search (c # cs) =
     (let rest = drop 5 (c # cs); group = take (length rest - 3) rest in
      if prefix ''diff_'' (c # cs) \<and> suffix ''.py'' rest \<and> newline \<notin> set group
      then Some group else diff_search cs)"

definition diff_model_name :: "string \<Rightarrow> string option" where
  "diff_model_name diff_file =
     diff_search (if diff_file \<noteq> [] \<and> last diff_file = newline then butlast diff_file
                  else diff_file)"

text \<open>\<^verbatim>\<open>diff_file.replace("diff_", new)\<close>: every occurrence, from the left.\<close>

fun replace_diff :: "string \<Rightarrow> string \<Rightarrow> string" where
  "replace_diff new [] = []"
| "replace_diff new (c # cs) =
     (if prefix ''diff_'' (c # cs) then new @ replace_diff new (drop 4 cs)
      else c # replace_diff new cs)"

text \<open>
  \<^verbatim>\<open>
  def convert_file(diff_file, cst_transformers=None):
      model_name = re.search(r"diff_(.*)(?=\.py$)", diff_file).groups()[0]
      with open(diff_file, "r") as file:
          code = file.read()
      module = cst.parse_module(code)
      wrapper = MetadataWrapper(module)
      if cst_transformers is None:
          cst_transformers = DiffConverterTransformer(module, model_name)
      new_mod = wrapper.visit(cst_transformers)
      ruffed_code = run_ruff(new_mod.code, True)
      formatted_code = run_ruff(ruffed_code, False)
      if len(formatted_code.strip()) > 0:
          with open(diff_file.replace("diff_", "modeling_"), "w") as f:
              f.write(AUTO_GENERATED_MESSAGE + formatted_code)

      if hasattr(cst_transformers, "config_body"):
          config_module = cst.Module(body=[*cst_transformers.config_body], header=new_mod.header)
          with open(diff_file.replace("diff_", "configuration_"), "w") as f:
              ruffed_code = run_ruff(config_module.code, True)
              formatted_code = run_ruff(ruffed_code, False)
              f.write(AUTO_GENERATED_MESSAGE + formatted_code)
      return cst_transformers
  \<close>
  The file system is a map from paths to contents.  The result is the file system after the call
  together with the exception raised or the converter returned.  The call is modelled with the
  default \<^verbatim>\<open>cst_transformers=None\<close>, as the driver makes it; \<open>module_code\<close> renders a module
  body under the header of the diff file.
\<close>

definition formatted :: "'tree env \<Rightarrow> node list \<Rightarrow> string" where
  "formatted env body = run_ruff env (run_ruff env (module_code env body) True) False"

definition convert_file ::
  "'tree env \<Rightarrow> (string \<rightharpoonup> string) \<Rightarrow> string
     \<Rightarrow> (string \<rightharpoonup> string) \<times> (error + 'tree converter)" where
  "convert_file env fs diff_file =
     (case diff_model_name diff_file of
        None \<Rightarrow> (fs, Inl AttributeError)
      | Some new_name \<Rightarrow>
          (case fs diff_file of
             None \<Rightarrow> (fs, Inl OSError)
           | Some code \<Rightarrow>
               (case parse_module env code of
                  Inl e \<Rightarrow> (fs, Inl e)
                | Inr stmts \<Rightarrow>
                    (case visit_module env new_name stmts of
                       Inl e \<Rightarrow> (fs, Inl e)
                     | Inr (new_mod, cst_transformers) \<Rightarrow>
                         (let formatted_code = formatted env new_mod;
                              fs1 = (if strip formatted_code \<noteq> []
                                     then fs(replace_diff ''modeling_'' diff_file \<mapsto>
                                               auto_generated_message env @ formatted_code)
                                     else fs);
                              fs2 = (case config_body cst_transformers of
                                       None \<Rightarrow> fs1
                                     | Some body \<Rightarrow>
                                         fs1(replace_diff ''configuration_'' diff_file \<mapsto>
                                               auto_generated_message env @ formatted env body))
                          in (fs2, Inr cst_transformers))))))"

section \<open>The renamer\<close>

text \<open>Case conversion of ASCII text, as \<^verbatim>\<open>str.upper\<close>, \<^verbatim>\<open>str.lower\<close> and \<^verbatim>\<open>str.title\<close> do it.\<close>

definition is_lower :: "char \<Rightarrow> bool" where
  "is_lower c = (97 \<le> (of_char c :: nat) \<and> (of_char c :: nat) \<le> 122)"

definition is_upper :: "char \<Rightarrow> bool" where
  "is_upper c = (65 \<le> (of_char c :: nat) \<and> (of_char c :: nat) \<le> 90)"

definition to_upper :: "char \<Rightarrow> char" where
  "to_upper c = (if is_lower c then char_of ((of_char c :: nat) - 32) else c)"

definition to_lower :: "char \<Rightarrow> char" where
  "to_lower c = (if is_upper c then char_of ((of_char c :: nat) + 32) else c)"

definition upper :: "string \<Rightarrow> string" where
  "upper s = map to_upper s"

definition lower :: "string \<Rightarrow> string" where
  "lower s = map to_lower s"

text \<open>
  \<^verbatim>\<open>str.title\<close>: a letter that follows no letter is put in upper case, a letter that follows a
  letter in lower case; the flag tells whether the previous character was a letter.
\<close>

fun title_from :: "bool \<Rightarrow> string \<Rightarrow> string" where
  "title_from previous_is_cased [] = []"
| "title_from previous_is_cased (c # cs) =
     (if is_lower c then (if previous_is_cased then c else to_upper c) # title_from True cs
      else if is_upper c then (if previous_is_cased then to_lower c else c) # title_from True cs
      else c # title_from False cs)"

definition title :: "string \<Rightarrow> string" where
  "title s = title_from False s"

text \<open>\<^verbatim>\<open>s.split("_")\<close>: the pieces between the underscores, empty pieces included.\<close>

fun split_underscore :: "string \<Rightarrow> string list" where
  "split_underscore [] = [[]]"
| "split_underscore (c # cs) =
     (case split_underscore cs of
        [] \<Rightarrow> [[c]]
      | piece # pieces \<Rightarrow>
          if c = CHR ''_'' then [] # piece # pieces else (c # piece) # pieces)"

text \<open>\<^verbatim>\<open>"".join(x.title() for x in name.split("_"))\<close>\<close>

definition pascal :: "string \<Rightarrow> string" where
  "pascal name = concat (map title (split_underscore name))"

text \<open>
  \<^verbatim>\<open>
  self.default_name = "".join(x.title() for x in new_name.split("_"))
  self.patterns = {
      old_name: new_name,
      old_name.upper(): new_name.upper(),
      "".join(x.title() for x in old_name.split("_")): self.default_name,
  }
  \<close>
\<close>

definition patterns :: "string \<Rightarrow> string \<Rightarrow> (string \<times> string) list" where
  "patterns old_name new_name =
     dict_set (pascal old_name) (pascal new_name)
       (dict_set (upper old_name) (upper new_name)
          (dict_set old_name new_name []))"

text \<open>A key of the alternation matches, ignoring case, at the start of a text.\<close>

definition matches_at :: "string \<Rightarrow> string \<Rightarrow> bool" where
  "matches_at key text = (length key \<le> length text \<and> lower (take (length key) text) = lower key)"

text \<open>The alternatives are tried in the order of the keys; the first that matches is taken.\<close>

definition first_match :: "string list \<Rightarrow> string \<Rightarrow> string option" where
  "first_match keys text = find (\<lambda>key. matches_at key text) keys"

text \<open>
  \<^verbatim>\<open>compiled_regex.sub(replace, text)\<close>: the text is scanned from the left; where an alternative
  matches, the matched word is replaced and the scan goes on behind it; an empty match is replaced
  too, and the scan then steps over one character.
\<close>

fun regex_sub :: "string list \<Rightarrow> (string \<Rightarrow> string) \<Rightarrow> string \<Rightarrow> string" where
  "regex_sub keys replace [] =
     (case first_match keys [] of None \<Rightarrow> [] | Some key \<Rightarrow> replace [])"
| "regex_sub keys replace (c # cs) =
     (case first_match keys (c # cs) of
        None \<Rightarrow> c # regex_sub keys replace cs
      | Some key \<Rightarrow>
          if key = [] then replace [] @ c # regex_sub keys replace cs
          else replace (take (length key) (c # cs))
                 @ regex_sub keys replace (drop (length key - 1) cs))"

text \<open>
  \<^verbatim>\<open>
  def preserve_case_replace(self, text):
      regex_pattern = "|".join(re.escape(key) for key in self.patterns.keys())
      compiled_regex = re.compile(regex_pattern, re.IGNORECASE)

      def replace(match):
          word = match.group(0)
          return self.patterns.get(word, self.default_name)

      return compiled_regex.sub(replace, text)
  \<close>
\<close>

definition preserve_case_replace :: "string \<Rightarrow> string \<Rightarrow> string \<Rightarrow> string" where
  "preserve_case_replace old_name new_name text =
     regex_sub (map fst (patterns old_name new_name))
       (\<lambda>word. case map_of (patterns old_name new_name) word of
                  None \<Rightarrow> pascal new_name
                | Some replacement \<Rightarrow> replacement)
       text"

section \<open>Example collaborators\<close>

text \<open>
  A simple instance of the collaborators, used to run the converter on concrete modules: every
  module loads, the analysis of a loaded module is the given \<open>class_finder\<close>, the diff file
  parses to the given statements, the formatter returns its input, and a module is rendered by
  joining short renderings of its statements.
\<close>

fun example_code :: "node \<Rightarrow> string" where
  "example_code (ImportLine code) = code"
| "example_code (ImportFromLine imp) =
     (case from_module imp of
        NoModule \<Rightarrow> ''from . import''
      | NameModule name \<Rightarrow> ''from '' @ name @ '' import''
      | AttributeModule name \<Rightarrow> ''from '' @ name @ '' import'')"
| "example_code (AssignLine target code) = code"
| "example_code (OtherLine code) = code"
| "example_code (FunctionDef f) = ''def '' @ fd_name f"
| "example_code (ClassDef c) = ''class '' @ cd_name c"
| "example_code (IfBlock test code) = code"

definition example_env :: "node list \<Rightarrow> class_finder \<Rightarrow> unit env" where
  "example_env stmts finder =
     \<lparr>load_module = (\<lambda>path. Inr ()),
      find_classes_in_file = (\<lambda>tree old_name new_name. finder),
      code_for_node = example_code,
      module_code = (\<lambda>body. concat (map example_code body)),
      parse_module = (\<lambda>code. Inr stmts),
      run_ruff = (\<lambda>code fix. code),
      auto_generated_message = ''# generated''\<rparr>"

definition empty_finder :: class_finder where
  "empty_finder =
     \<lparr>cf_classes = Map.empty, cf_assignments = Map.empty, cf_function_def = Map.empty,
      cf_imports = [], class_dependency_mapping = Map.empty, class_start_line = Map.empty\<rparr>"

section \<open>Predicates used in the statements\<close>

fun is_import_error :: "error \<Rightarrow> bool" where
  "is_import_error (ImportError message) = True"
| "is_import_error other = False"


text \<open>A class definition whose name contains \<^verbatim>\<open>Config\<close>.\<close>

fun is_config_class :: "node \<Rightarrow> bool" where
  "is_config_class (ClassDef c) = sublist ''Config'' (cd_name c)"
| "is_config_class other = False"

text \<open>The fields that a turn of the loop over the bases of a class leaves unchanged.\<close>

definition same_frame :: "'tree converter \<Rightarrow> 'tree converter \<Rightarrow> bool" where
  "same_frame st st' =
     (config_body st' = config_body st \<and> all_imports st' = all_imports st
      \<and> global_scope_index st' = global_scope_index st
      \<and> imported_mapping st' = imported_mapping st
      \<and> transformers_imports st' = transformers_imports st
      \<and> model_name st' = model_name st)"

text \<open>The fields that \<^verbatim>\<open>visit_ImportFrom\<close> leaves unchanged.\<close>

definition body_frame :: "'tree converter \<Rightarrow> 'tree converter \<Rightarrow> bool" where
  "body_frame st st' =
     (config_body st' = config_body st \<and> all_imports st' = all_imports st
      \<and> new_body st' = new_body st \<and> global_scope_index st' = global_scope_index st)"





text \<open>Example: collaborators whose loader cannot load any module (the parser raises).\<close>

definition failing_env :: "unit env" where
  "failing_env = (example_env [] empty_finder)\<lparr>load_module := (\<lambda>path. Inl ParserSyntaxError)\<rparr>"






section \<open>Properties of the dependency bookkeeping\<close>

lemma dep_get_update:
  "dep_get (update_class_dependency mp name val) k =
     (if k = name then dep_get mp val \<union> (dep_get mp name \<union> {val}) else dep_get mp k)"
  by (simp add: update_class_dependency_def dep_get_def)

lemma update_grows: "dep_get mp k \<subseteq> dep_get (update_class_dependency mp name val) k"
  by (auto simp: dep_get_update)

lemma visit_ClassDef_grows: "dep_get mp k \<subseteq> dep_get (visit_ClassDef_deps mp name bs) k"
proof (induction bs arbitrary: mp)
  case Nil
  show ?case by simp
next
  case (Cons b bs)
  have "dep_get mp k \<subseteq> dep_get (update_class_dependency mp name b) k"
    by (rule update_grows)
  also have "\<dots> \<subseteq> dep_get (visit_ClassDef_deps (update_class_dependency mp name b) name bs) k"
    by (rule Cons.IH)
  finally show ?case by simp
qed

lemma visit_ClassDef_bases:
  "b \<in> set bs \<Longrightarrow> insert b (dep_get mp b) \<subseteq> dep_get (visit_ClassDef_deps mp name bs) name"
proof (induction bs arbitrary: mp)
  case Nil
  then show ?case by simp
next
  case (Cons a bs)
  let ?m = "update_class_dependency mp name a"
  show ?case
  proof (cases "b = a")
    case True
    have "insert b (dep_get mp b) \<subseteq> dep_get ?m name"
      using True by (auto simp: dep_get_update)
    also have "\<dots> \<subseteq> dep_get (visit_ClassDef_deps ?m name bs) name"
      by (rule visit_ClassDef_grows)
    finally show ?thesis by simp
  next
    case False
    with Cons.prems have "b \<in> set bs" by simp
    then have "insert b (dep_get ?m b) \<subseteq> dep_get (visit_ClassDef_deps ?m name bs) name"
      by (rule Cons.IH)
    moreover have "dep_get mp b \<subseteq> dep_get ?m b" by (rule update_grows)
    ultimately show ?thesis by auto
  qed
qed

lemma visit_classes_grows: "dep_get mp k \<subseteq> dep_get (visit_classes mp cs) k"
proof (induction cs arbitrary: mp)
  case Nil
  show ?case by simp
next
  case (Cons c cs)
  obtain name bases where c: "c = (name, bases)" by (cases c)
  have "dep_get mp k \<subseteq> dep_get (visit_ClassDef_deps mp name bases) k"
    by (rule visit_ClassDef_grows)
  also have "\<dots> \<subseteq> dep_get (visit_classes (visit_ClassDef_deps mp name bases) cs) k"
    by (rule Cons.IH)
  finally show ?case by (simp add: c)
qed

lemma traversal_grows: "dep_get mp k \<subseteq> dep_get (traversal mp us) k"
proof (induction us arbitrary: mp)
  case Nil
  show ?case by simp
next
  case (Cons u us)
  obtain name val where u: "u = (name, val)" by (cases u)
  have "dep_get mp k \<subseteq> dep_get (update_class_dependency mp name val) k"
    by (rule update_grows)
  also have "\<dots> \<subseteq> dep_get (traversal (update_class_dependency mp name val) us) k"
    by (rule Cons.IH)
  finally show ?case by (simp add: u)
qed

text \<open>
  Claim C5.  A call \<^verbatim>\<open>_update_class_dependency(name, value)\<close> sets the set recorded for
  \<open>name\<close> to the union of its previous set, \<open>{value}\<close> and the set currently recorded for
  \<open>value\<close>, and leaves every other key alone.  Consequently, for class definitions processed
  in order: once the definitions \<open>pre\<close> and then the class \<open>name\<close> with bases \<open>bases\<close> have
  been processed, and whatever is processed afterwards (\<open>post\<close>), the set recorded for
  \<open>name\<close> contains each base it named together with the set that was recorded for that base
  before the class was processed; and no recorded set ever shrinks, neither over a sequence of
  class definitions nor over any sequence of update calls of a traversal.
\<close>

theorem C5_dependency_sets_merge_and_grow:
  "dep_get (update_class_dependency mp name val) name
      = dep_get mp name \<union> {val} \<union> dep_get mp val
   \<and> (\<forall>k. k \<noteq> name \<longrightarrow> update_class_dependency mp name val k = mp k)
   \<and> (\<forall>b \<in> set bases.
        insert b (dep_get (visit_classes mp pre) b)
          \<subseteq> dep_get (visit_classes mp (pre @ (name, bases) # post)) name)
   \<and> (\<forall>k. dep_get mp k \<subseteq> dep_get (visit_classes mp cs) k)
   \<and> (\<forall>k. dep_get mp k \<subseteq> dep_get (traversal mp us) k)"
proof -
  have split_seq: "visit_classes m (xs @ ys) = visit_classes (visit_classes m xs) ys" for m xs ys
    by (induction m xs rule: visit_classes.induct) auto
  have a: "dep_get (update_class_dependency mp name val) name
      = dep_get mp name \<union> {val} \<union> dep_get mp val"
    by (auto simp: dep_get_update)
  have b: "\<forall>k. k \<noteq> name \<longrightarrow> update_class_dependency mp name val k = mp k"
    by (simp add: update_class_dependency_def)
  have c: "\<forall>b \<in> set bases.
        insert b (dep_get (visit_classes mp pre) b)
          \<subseteq> dep_get (visit_classes mp (pre @ (name, bases) # post)) name"
  proof
    fix b assume b: "b \<in> set bases"
    let ?m = "visit_classes mp pre"
    have "insert b (dep_get ?m b) \<subseteq> dep_get (visit_ClassDef_deps ?m name bases) name"
      using b by (rule visit_ClassDef_bases)
    also have "\<dots> \<subseteq> dep_get (visit_classes (visit_ClassDef_deps ?m name bases) post) name"
      by (rule visit_classes_grows)
    finally show "insert b (dep_get ?m b)
          \<subseteq> dep_get (visit_classes mp (pre @ (name, bases) # post)) name"
      by (simp add: split_seq)
  qed
  have d: "\<forall>k. dep_get mp k \<subseteq> dep_get (visit_classes mp cs) k"
    by (simp add: visit_classes_grows)
  have e: "\<forall>k. dep_get mp k \<subseteq> dep_get (traversal mp us) k"
    by (simp add: traversal_grows)
  from a b c d e show ?thesis by (intro conjI)
qed

theorem C5_dependency_sets_merge_and_grow_witness:
  "dep_get (update_class_dependency [''B'' \<mapsto> {''C'', ''D''}] ''A'' ''B'') ''A''
      = {''B'', ''C'', ''D''}
   \<and> ''B'' \<in> set [''B'']
   \<and> insert ''B'' (dep_get (visit_classes [''B'' \<mapsto> {''C'', ''D''}] []) ''B'')
        \<subseteq> dep_get (visit_classes [''B'' \<mapsto> {''C'', ''D''}]
                     ([] @ (''A'', [''B'']) # [(''E'', [''A''])])) ''A''
   \<and> dep_get (visit_classes [''B'' \<mapsto> {''C'', ''D''}]
          ([] @ (''A'', [''B'']) # [(''E'', [''A''])])) ''E'' = {''A'', ''B'', ''C'', ''D''}"
proof -
  have "dep_get (visit_classes [''B'' \<mapsto> {''C'', ''D''}]
          ([] @ (''A'', [''B'']) # [(''E'', [''A''])])) ''E'' = {''A'', ''B'', ''C'', ''D''}"
    by (simp add: dep_get_update) (auto simp: dep_get_def)
  then show ?thesis
    using C5_dependency_sets_merge_and_grow
      [of "[''B'' \<mapsto> {''C'', ''D''}]" "''A''" "''B''" "[''B'']" "[]" "[(''E'', [''A''])]" "[]" "[]"]
    by (auto simp: dep_get_def)
qed

section \<open>Properties of the regular expressions\<close>

text \<open>
  Claim C8.  The old model name should be the text after the underscore of the trailing
  \<^verbatim>\<open>modeling_<name>\<close> segment of the import path.  The code applies its pattern to the whole
  path: for the path of a model whose directory name has an underscore it returns the text after
  the first underscore of the path, where the pattern applied to the trailing segment gives the
  model name.
\<close>

theorem C8_model_name_searched_in_whole_path:
  "extract_model_name ''transformers.models.layout_xlm.modeling_layout_xlm''
     = Inr ''xlm.modeling_layout_xlm''
   \<and> spec_model_name ''transformers.models.layout_xlm.modeling_layout_xlm''
     = Some ''layout_xlm''"
  by (simp add: extract_model_name_def spec_model_name_def trailing_segment_def is_space_def)

lemma last_source_append: "last_source b = Some g \<Longrightarrow> last_source (a @ b) = Some g"
  by (induction a) auto

lemma last_source_skip: "c \<noteq> CHR ''.'' \<Longrightarrow> last_source (c # cs) = last_source cs"
  by (cases "last_source cs") auto

lemma last_source_configuration:
  "last_source s = Some ''configuration'' \<Longrightarrow> sublist ''.configuration_'' s"
proof (induction s)
  case Nil
  then show ?case by simp
next
  case (Cons c cs)
  show ?case
  proof (cases "last_source cs")
    case None
    with Cons.prems have "prefix ''.configuration_'' (c # cs)"
      by (auto split: if_splits)
    then show ?thesis by (rule prefix_imp_sublist)
  next
    case (Some g)
    with Cons.prems have "last_source cs = Some ''configuration''" by simp
    then have "sublist ''.configuration_'' cs" by (rule Cons.IH)
    then show ?thesis by (simp add: sublist_Cons_right)
  qed
qed

lemma last_source_values:
  "last_source s = None \<or> last_source s = Some ''modeling'' \<or> last_source s = Some ''configuration''"
  by (induction s) (auto split: option.splits)

lemma last_source_modeling:
  assumes "\<not> sublist ''.configuration_'' y"
  shows "last_source (x @ ''.modeling_'' @ y) = Some ''modeling''"
proof -
  have "last_source y \<noteq> Some ''configuration''"
    using assms last_source_configuration by blast
  then have "last_source y = None \<or> last_source y = Some ''modeling''"
    using last_source_values [of y] by blast
  moreover have "last_source (''modeling_'' @ y) = last_source y"
    by (simp add: last_source_skip del: last_source.simps)
  ultimately have "last_source (''.modeling_'' @ y) = Some ''modeling''"
    by (auto simp del: last_source.simps simp add: last_source.simps(2) [of "CHR ''.''"])
  then show ?thesis by (rule last_source_append)
qed

lemma line_of_modeling:
  assumes "newline \<notin> set x"
  shows "line_of (x @ ''.modeling_'' @ y) = x @ ''.modeling_'' @ line_of y"
proof -
  have "takeWhile (\<lambda>c. c \<noteq> newline) (x @ ''.modeling_'' @ y)
          = x @ takeWhile (\<lambda>c. c \<noteq> newline) (''.modeling_'' @ y)"
    using assms by (intro takeWhile_append2) auto
  also have "takeWhile (\<lambda>c. c \<noteq> newline) (''.modeling_'' @ y)
          = ''.modeling_'' @ takeWhile (\<lambda>c. c \<noteq> newline) y"
    by (simp add: newline_def)
  finally show ?thesis by (simp add: line_of_def)
qed

lemma sublist_line_of: "sublist s (line_of y) \<Longrightarrow> sublist s y"
proof -
  assume a: "sublist s (line_of y)"
  have "y = line_of y @ dropWhile (\<lambda>c. c \<noteq> newline) y"
    by (simp add: line_of_def)
  then obtain r where "y = line_of y @ r" ..
  moreover have "sublist s (line_of y @ r)"
    using a by (simp add: sublist_append)
  ultimately show ?thesis by simp
qed

lemma import_search_modeling:
  assumes "newline \<notin> set x" "\<not> sublist ''.configuration_'' y"
  shows "import_search (''transformers.models.'' @ x @ ''.modeling_'' @ y) = Some ''modeling''"
proof -
  define rest where "rest = x @ ''.modeling_'' @ y"
  have "\<not> sublist ''.configuration_'' (line_of y)"
    using assms(2) sublist_line_of by blast
  then have "last_source (x @ ''.modeling_'' @ line_of y) = Some ''modeling''"
    by (rule last_source_modeling)
  moreover have "line_of rest = x @ ''.modeling_'' @ line_of y"
    unfolding rest_def by (rule line_of_modeling [OF assms(1)])
  ultimately have "last_source (line_of rest) = Some ''modeling''"
    by (simp only:)
  then have "import_search (''transformers.models.'' @ rest) = Some ''modeling''"
    by simp
  then show ?thesis by (simp only: rest_def)
qed


lemma visit_aliases_config:
  assumes "import_search path = Some ''modeling''"
    and "find (\<lambda>a. sublist ''Config'' (alias_code a)) names = Some a0"
  shows "visit_aliases env path st names = Inl (ValueError (config_import_message (alias_code a0)))
         \<or> (\<exists>e. load_module env path = Inl e \<and> transformers_imports st path = None
                \<and> visit_aliases env path st names = Inl e)"
  using assms(2)
proof (induction names arbitrary: st)
  case Nil
  then show ?case by simp
next
  case (Cons a names)
  show ?case
  proof (cases "sublist ''Config'' (alias_code a)")
    case True
    with Cons.prems have "a0 = a" by simp
    with True assms(1) show ?thesis by simp
  next
    case False
    with Cons.prems have f: "find (\<lambda>a. sublist ''Config'' (alias_code a)) names = Some a0"
      by simp
    show ?thesis
    proof (cases "transformers_imports st path")
      case (Some tree)
      let ?st = "st\<lparr>imported_mapping := (imported_mapping st)(alias_name a \<mapsto> path)\<rparr>"
      have "visit_aliases env path st (a # names) = visit_aliases env path ?st names"
        using False Some assms(1) by simp
      moreover have "transformers_imports ?st path \<noteq> None" using Some by simp
      ultimately show ?thesis using Cons.IH [OF f, of ?st] by auto
    next
      case None
      show ?thesis
      proof (cases "load_module env path")
        case (Inl e)
        then show ?thesis using False None assms(1) by simp
      next
        case (Inr tree)
        let ?st = "st\<lparr>transformers_imports := (transformers_imports st)(path \<mapsto> tree),
                       imported_mapping := (imported_mapping st)(alias_name a \<mapsto> path)\<rparr>"
        have "visit_aliases env path st (a # names) = visit_aliases env path ?st names"
          using False None Inr assms(1) by simp
        moreover have "transformers_imports ?st path \<noteq> None" by simp
        ultimately show ?thesis using Cons.IH [OF f, of ?st] Inr by auto
      qed
    qed
  qed
qed

lemma fold_result_raises:
  assumes "x \<in> set xs" and "\<And>st. \<exists>e. f st x = Inl e"
  shows "\<exists>e. fold_result f st xs = Inl e"
  using assms(1)
proof (induction xs arbitrary: st)
  case Nil
  then show ?case by simp
next
  case (Cons y ys)
  show ?case
  proof (cases "f st y")
    case (Inl e)
    then show ?thesis by simp
  next
    case (Inr st')
    have "y \<noteq> x" using Inr assms(2) [of st] by auto
    with Cons.prems have "x \<in> set ys" by simp
    then show ?thesis using Cons.IH [of st'] Inr by simp
  qed
qed

lemma in_set_enumerate: "x \<in> set xs \<Longrightarrow> \<exists>i. (i, x) \<in> set (enumerate n xs)"
  by (metis in_set_conv_nth nth_enumerate_eq length_enumerate nth_mem)

lemma find_config_name:
  assumes "a \<in> set names" "sublist ''Config'' (alias_name a)"
  shows "\<exists>a0. find (\<lambda>a. sublist ''Config'' (alias_code a)) names = Some a0
           \<and> a0 \<in> set names \<and> sublist ''Config'' (alias_code a0)"
proof -
  have "sublist ''Config'' (alias_code a)"
    using assms(2) by (simp add: alias_code_def sublist_append)
  with assms(1) have "find (\<lambda>a. sublist ''Config'' (alias_code a)) names \<noteq> None"
    by (auto simp: find_None_iff)
  then obtain a0 where f: "find (\<lambda>a. sublist ''Config'' (alias_code a)) names = Some a0" by auto
  then show ?thesis by (auto simp: find_Some_iff)
qed

text \<open>
  Claim C3, as amended.  An import-from statement whose dotted path is
  \<^verbatim>\<open>transformers.models.<x>.modeling_<y>\<close> and one of whose imported names contains
  \<^verbatim>\<open>Config\<close> makes \<^verbatim>\<open>visit_ImportFrom\<close> raise, in every state of the converter, and a
  conversion of a diff file that holds such a statement raises and leaves the file system as it
  was.  The aliases are handled in order, and the module of the path is loaded for each alias
  that passes the test.  So the exception is the ValueError whose message names the first alias
  whose text contains \<^verbatim>\<open>Config\<close> when the module of the path is already loaded or loads, or
  when that alias is the first of the statement; otherwise it is the exception of the loader,
  raised for an alias that precedes it.
\<close>

theorem C3_config_import_from_modeling_raises:
  assumes path: "path = ''transformers.models.'' @ x @ ''.modeling_'' @ y"
    and x: "newline \<notin> set x"
    and y: "\<not> sublist ''.configuration_'' y"
    and a: "a \<in> set names" "sublist ''Config'' (alias_name a)"
    and node: "node = \<lparr>from_module = AttributeModule path, from_names = ImportAliases names\<rparr>"
  shows "(\<exists>e. visit_ImportFrom env st node = Inl e)
    \<and> (transformers_imports st path \<noteq> None \<or> (\<exists>tree. load_module env path = Inr tree)
         \<or> sublist ''Config'' (alias_code (hd names))
        \<longrightarrow> (\<exists>a0 \<in> set names. sublist ''Config'' (alias_code a0)
              \<and> visit_ImportFrom env st node
                  = Inl (ValueError (config_import_message (alias_code a0)))))
    \<and> (\<exists>a0 \<in> set names. sublist ''Config'' (alias_code a0)
          \<and> (visit_ImportFrom env st node
                 = Inl (ValueError (config_import_message (alias_code a0)))
              \<or> (\<exists>e. load_module env path = Inl e \<and> transformers_imports st path = None
                     \<and> visit_ImportFrom env st node = Inl e)))
    \<and> (ImportFromLine node \<in> set stmts \<and> fs diff_file = Some code
          \<and> parse_module env code = Inr stmts
        \<longrightarrow> (\<exists>e. convert_file env fs diff_file = (fs, Inl e)))"
proof -
  have search: "import_search path = Some ''modeling''"
    unfolding path using x y by (rule import_search_modeling)
  obtain a0 where a0: "find (\<lambda>a. sublist ''Config'' (alias_code a)) names = Some a0"
      "a0 \<in> set names" "sublist ''Config'' (alias_code a0)"
    using find_config_name [OF a] by blast
  have visit: "visit_ImportFrom env s node = visit_aliases env path s names" for s
    by (simp add: visit_ImportFrom_def node)
  have cases: "visit_aliases env path s names = Inl (ValueError (config_import_message (alias_code a0)))
         \<or> (\<exists>e. load_module env path = Inl e \<and> transformers_imports s path = None
                \<and> visit_aliases env path s names = Inl e)" for s
    using search a0(1) by (rule visit_aliases_config)
  have raises: "\<exists>e. visit_ImportFrom env s node = Inl e" for s
    using cases [of s] visit [of s] by auto
  have first: "sublist ''Config'' (alias_code (hd names))
      \<Longrightarrow> visit_aliases env path st names = Inl (ValueError (config_import_message (alias_code a0)))"
    using a0(1) search a(1) by (cases names) (auto split: if_splits)
  have named: "\<exists>a0 \<in> set names. sublist ''Config'' (alias_code a0)
              \<and> visit_ImportFrom env st node
                  = Inl (ValueError (config_import_message (alias_code a0)))"
    if "transformers_imports st path \<noteq> None \<or> (\<exists>tree. load_module env path = Inr tree)
         \<or> sublist ''Config'' (alias_code (hd names))"
    using that cases [of st] visit [of st] a0(2,3) first by auto
  have conv: "\<exists>e. convert_file env fs diff_file = (fs, Inl e)"
    if h: "ImportFromLine node \<in> set stmts" "fs diff_file = Some code"
       "parse_module env code = Inr stmts"
  proof (cases "diff_model_name diff_file")
    case None
    then show ?thesis by (simp add: convert_file_def)
  next
    case (Some new_name)
    obtain i where i: "(i, ImportFromLine node) \<in> set (enumerate 0 stmts)"
      using in_set_enumerate [OF h(1)] by blast
    have "\<exists>e. visit_statement env s (i, ImportFromLine node) = Inl e" for s
      using raises [of s] by auto
    then have "\<exists>e. fold_result (visit_statement env) (init_converter new_name) (enumerate 0 stmts) = Inl e"
      using i by (intro fold_result_raises) auto
    then obtain e where "visit_module env new_name stmts = Inl e"
      by (auto simp: visit_module_def)
    then show ?thesis using Some h(2,3) by (simp add: convert_file_def)
  qed
  have either: "\<exists>a0 \<in> set names. sublist ''Config'' (alias_code a0)
          \<and> (visit_ImportFrom env st node
                 = Inl (ValueError (config_import_message (alias_code a0)))
              \<or> (\<exists>e. load_module env path = Inl e \<and> transformers_imports st path = None
                     \<and> visit_ImportFrom env st node = Inl e))"
    using cases [of st] visit [of st] a0(2,3) by auto
  from raises [of st] named either conv show ?thesis by blast
qed

text \<open>
  The claim C3 as stated fails: when the module does not load, the statement
  \<^verbatim>\<open>from transformers.models.llama.modeling_llama import LlamaModel, LlamaConfig\<close> raises the
  exception of the loader at its first alias, and no ValueError.
\<close>

theorem C3_counterexample:
  "visit_ImportFrom failing_env (init_converter ''gemma'')
      \<lparr>from_module = AttributeModule ''transformers.models.llama.modeling_llama'',
       from_names = ImportAliases [\<lparr>alias_name = ''LlamaModel'', alias_rest = '', ''\<rparr>,
                                   \<lparr>alias_name = ''LlamaConfig'', alias_rest = []\<rparr>]\<rparr>
     = Inl ParserSyntaxError"
  by (simp add: visit_ImportFrom_def failing_env_def example_env_def init_converter_def
        alias_code_def sublist_code line_of_def newline_def)

theorem C3_config_import_from_modeling_raises_witness:
  "visit_ImportFrom (example_env [] empty_finder) (init_converter ''gemma'')
      \<lparr>from_module = AttributeModule ''transformers.models.llama.modeling_llama'',
       from_names = ImportAliases [\<lparr>alias_name = ''LlamaConfig'', alias_rest = []\<rparr>]\<rparr>
     = Inl (ValueError (config_import_message ''LlamaConfig''))
   \<and> (\<exists>e. convert_file
          (example_env
             [ImportFromLine
                \<lparr>from_module = AttributeModule ''transformers.models.llama.modeling_llama'',
                 from_names = ImportAliases [\<lparr>alias_name = ''LlamaConfig'', alias_rest = []\<rparr>]\<rparr>]
             empty_finder)
          [''diff_gemma.py'' \<mapsto> ''source''] ''diff_gemma.py''
        = ([''diff_gemma.py'' \<mapsto> ''source''], Inl e))"
proof -
  let ?a = "\<lparr>alias_name = ''LlamaConfig'', alias_rest = []\<rparr>"
  let ?node = "\<lparr>from_module = AttributeModule ''transformers.models.llama.modeling_llama'',
                from_names = ImportAliases [?a]\<rparr>"
  have path: "''transformers.models.llama.modeling_llama''
                = ''transformers.models.'' @ ''llama'' @ ''.modeling_'' @ ''llama''"
    by simp
  have x: "newline \<notin> set ''llama''" by (simp add: newline_def)
  have y: "\<not> sublist ''.configuration_'' ''llama''" by (simp add: sublist_code)
  have a: "?a \<in> set [?a]" "sublist ''Config'' (alias_name ?a)"
    by (simp_all add: sublist_code)
  have first: "sublist ''Config'' (alias_code (hd [?a]))"
    by (simp add: alias_code_def sublist_code)
  have one: "visit_ImportFrom (example_env [] empty_finder) (init_converter ''gemma'') ?node
      = Inl (ValueError (config_import_message ''LlamaConfig''))"
    using C3_config_import_from_modeling_raises
      [OF path x y a refl, of "example_env [] empty_finder" "init_converter ''gemma''"] first
    by (auto simp: alias_code_def)
  have two: "\<exists>e. convert_file (example_env [ImportFromLine ?node] empty_finder)
          [''diff_gemma.py'' \<mapsto> ''source''] ''diff_gemma.py''
        = ([''diff_gemma.py'' \<mapsto> ''source''], Inl e)"
    using C3_config_import_from_modeling_raises
      [OF path x y a refl, of "example_env [ImportFromLine ?node] empty_finder" _
        "[ImportFromLine ?node]" "[''diff_gemma.py'' \<mapsto> ''source'']" "''diff_gemma.py''"
        "''source''"]
    by (simp add: example_env_def)
  from one two show ?thesis by simp
qed

section \<open>Properties of the converter\<close>



lemma fold_result_invariant:
  assumes "fold_result f st xs = Inr st'" and "P st"
    and step: "\<And>s x s'. P s \<Longrightarrow> x \<in> set xs \<Longrightarrow> f s x = Inr s' \<Longrightarrow> P s'"
  shows "P st'"
  using assms(1,2) step
proof (induction xs arbitrary: st)
  case Nil
  then show ?case by simp
next
  case (Cons x xs)
  from Cons.prems(1) obtain s where s: "f st x = Inr s" "fold_result f s xs = Inr st'"
    by (auto split: sum.splits)
  have Ps: "P s" using Cons.prems(3) [of st x s] Cons.prems(2) s(1) by simp
  show ?case
  proof (rule Cons.IH [OF s(2) Ps])
    fix t y t' assume "P t" "y \<in> set xs" "f t y = Inr t'"
    then show "P t'" using Cons.prems(3) [of t y t'] by simp
  qed
qed

lemma fold_result_error:
  assumes "fold_result f st xs = Inl e" and "P st"
    and step: "\<And>s x s'. P s \<Longrightarrow> x \<in> set xs \<Longrightarrow> f s x = Inr s' \<Longrightarrow> P s'"
  shows "\<exists>s x. P s \<and> x \<in> set xs \<and> f s x = Inl e"
  using assms(1,2) step
proof (induction xs arbitrary: st)
  case Nil
  then show ?case by simp
next
  case (Cons x xs)
  show ?case
  proof (cases "f st x")
    case (Inl e')
    with Cons.prems(1) have "f st x = Inl e" by simp
    with Cons.prems(2) have "P st \<and> x \<in> set (x # xs) \<and> f st x = Inl e" by simp
    then show ?thesis by blast
  next
    case (Inr s)
    with Cons.prems(1) have r: "fold_result f s xs = Inl e" by simp
    have Ps: "P s" using Cons.prems(3) [of st x s] Cons.prems(2) Inr by simp
    have "\<exists>s x. P s \<and> x \<in> set xs \<and> f s x = Inl e"
    proof (rule Cons.IH [OF r Ps])
      fix t y t' assume "P t" "y \<in> set xs" "f t y = Inr t'"
      then show "P t'" using Cons.prems(3) [of t y t'] by simp
    qed
    then obtain t y where "P t" "y \<in> set xs" "f t y = Inl e" by blast
    then have "P t \<and> y \<in> set (x # xs) \<and> f t y = Inl e" by simp
    then show ?thesis by blast
  qed
qed

lemma map_result_error: "map_result f xs = Inl e \<Longrightarrow> \<exists>x \<in> set xs. f x = Inl e"
  by (induction xs) (auto split: sum.splits)

lemma merge_member_error:
  assumes "merge_member upd m = Inl e"
  shows "\<not> is_import_error e"
proof -
  obtain name func where m: "m = (name, func)" by (cases m)
  show ?thesis
  proof (cases "lookup_updated upd name")
    case None
    with assms m show ?thesis by simp
  next
    case (Some u)
    show ?thesis
    proof (cases u)
      case (Method uf)
      with assms m Some show ?thesis
        by (cases func) (auto split: if_splits)
    next
      case (NestedClass n c)
      with assms m Some show ?thesis by auto
    next
      case (ClassStmt c)
      with assms m Some show ?thesis by auto
    qed
  qed
qed

lemma leave_FunctionDef_super_error:
  assumes "leave_FunctionDef_super orig upd f = Inl e"
  shows "\<not> is_import_error e"
proof (cases "map_of orig (Named (fd_name f))")
  case None
  with assms show ?thesis
    by (auto simp: leave_FunctionDef_super_def split: if_splits)
next
  case (Some m)
  with assms show ?thesis
    by (cases m) (auto simp: leave_FunctionDef_super_def split: if_splits)
qed

lemma visit_member_error:
  assumes "visit_member orig upd m = Inl e"
  shows "\<not> is_import_error e"
proof (cases m)
  case (Method f)
  show ?thesis
  proof (cases "leave_FunctionDef_super orig upd f")
    case (Inl e')
    with assms Method have "e' = e \<or> e = AttributeError" by (auto split: if_splits)
    with Inl show ?thesis by (auto dest: leave_FunctionDef_super_error)
  next
    case (Inr f')
    with assms Method show ?thesis by (auto split: if_splits)
  qed
next
  case (NestedClass n c)
  with assms show ?thesis by simp
next
  case (ClassStmt c)
  with assms show ?thesis by simp
qed

lemma replace_call_to_super_error:
  assumes "replace_call_to_super classes node name = Inl e"
  shows "\<not> is_import_error e"
proof (cases "classes name")
  case None
  with assms show ?thesis by (auto simp: replace_call_to_super_def)
next
  case (Some orig)
  let ?om = "methods_dict (cd_body orig)"
  let ?um = "methods_dict (cd_body node)"
  show ?thesis
  proof (cases "map_result (merge_member ?um) ?om")
    case (Inl e')
    with assms Some have "e' = e" by (simp add: replace_call_to_super_def)
    with Inl obtain m where "merge_member ?um m = Inl e"
      by (auto dest: map_result_error)
    then show ?thesis by (rule merge_member_error)
  next
    case (Inr end_meth)
    with assms Some have "map_result (visit_member ?om ?um) end_meth = Inl e"
      by (simp add: replace_call_to_super_def split: sum.splits)
    then obtain m where "visit_member ?om ?um m = Inl e"
      by (auto dest: map_result_error)
    then show ?thesis by (rule visit_member_error)
  qed
qed

lemma base_names_imported:
  "base_names mapping ks = Inr names \<Longrightarrow> n \<in> set names \<Longrightarrow> mapping n \<noteq> None"
proof (induction ks arbitrary: names)
  case Nil
  then show ?case by simp
next
  case (Cons k ks)
  show ?case
  proof (cases k)
    case (NameBase name)
    with Cons.prems(1) obtain ns where ns: "base_names mapping ks = Inr ns"
      and names: "names = (if mapping name = None then ns else name # ns)"
      by (auto split: sum.splits)
    show ?thesis
    proof (cases "n \<in> set ns")
      case True
      with ns show ?thesis by (rule Cons.IH)
    next
      case False
      with names Cons.prems(2) show ?thesis by (auto split: if_splits)
    qed
  next
    case (NodeBase code)
    with Cons show ?thesis by simp
  next
    case (CallBase code)
    with Cons show ?thesis by simp
  qed
qed

lemma get_class_finder_frame:
  "get_class_finder env st path old = Inr (st', cf) \<Longrightarrow> same_frame st st'"
  by (auto simp: get_class_finder_def Let_def same_frame_def split: option.splits)

lemma get_class_finder_error:
  "get_class_finder env st path old = Inl e \<Longrightarrow> \<not> is_import_error e"
  by (auto simp: get_class_finder_def Let_def split: option.splits)

lemma extract_model_name_error:
  "extract_model_name path = Inl e \<Longrightarrow> \<not> is_import_error e"
  by (auto simp: extract_model_name_def split: option.splits)

text \<open>The successful runs of a turn of the loop over the bases, spelled out.\<close>

lemma process_base_Inr:
  assumes "process_base env cn (st, u) b = Inr (st', u')"
  obtains path old st1 cf body inserted idx where
    "imported_mapping st b = Some path"
    "extract_model_name path = Inr old"
    "get_class_finder env st path old = Inr (st1, cf)"
    "insert_dependencies (global_nodes cf) (map fst (list_dependencies cf cn))
        (new_body st1, inserted_deps st1, global_scope_index st1) = (body, inserted, idx)"
    "st' = st1\<lparr>new_body := body, inserted_deps := inserted\<rparr>"
    "list_dependencies cf cn \<noteq> [] \<longrightarrow> replace_call_to_super (cf_classes cf) u cn = Inr u'"
    "list_dependencies cf cn = [] \<longrightarrow> u' = u"
proof -
  from assms obtain path where p: "imported_mapping st b = Some path"
    by (auto simp: process_base_def split: option.splits)
  from assms p obtain old where o: "extract_model_name path = Inr old"
    by (auto simp: process_base_def split: sum.splits)
  from assms p o obtain st1 cf where g: "get_class_finder env st path old = Inr (st1, cf)"
    by (auto simp: process_base_def split: sum.splits)
  obtain body inserted idx where i:
    "insert_dependencies (global_nodes cf) (map fst (list_dependencies cf cn))
        (new_body st1, inserted_deps st1, global_scope_index st1) = (body, inserted, idx)"
    by (metis prod_cases3)
  from assms p o g i have
    "st' = st1\<lparr>new_body := body, inserted_deps := inserted\<rparr>"
    "list_dependencies cf cn \<noteq> [] \<longrightarrow> replace_call_to_super (cf_classes cf) u cn = Inr u'"
    "list_dependencies cf cn = [] \<longrightarrow> u' = u"
    by (auto simp: process_base_def Let_def split: sum.splits if_splits)
  with p o g i show ?thesis using that by blast
qed

lemma process_base_frame:
  assumes "process_base env cn (st, u) b = Inr (st', u')"
  shows "same_frame st st'"
proof -
  from assms obtain path old st1 cf body inserted idx where
    g: "get_class_finder env st path old = Inr (st1, cf)"
    and st': "st' = st1\<lparr>new_body := body, inserted_deps := inserted\<rparr>"
    by (rule process_base_Inr)
  from get_class_finder_frame [OF g] st' show ?thesis
    by (simp add: same_frame_def)
qed

lemma process_base_error:
  assumes "process_base env cn (st, u) b = Inl e" "imported_mapping st b \<noteq> None"
  shows "\<not> is_import_error e"
proof -
  from assms(2) obtain path where p: "imported_mapping st b = Some path" by auto
  show ?thesis
  proof (cases "extract_model_name path")
    case (Inl e')
    with assms(1) p have "e' = e" by (simp add: process_base_def)
    with Inl show ?thesis by (auto dest: extract_model_name_error)
  next
    case (Inr old)
    show ?thesis
    proof (cases "get_class_finder env st path old")
      case (Inl e')
      with assms(1) p Inr have "e' = e" by (simp add: process_base_def)
      with Inl show ?thesis by (auto dest: get_class_finder_error)
    next
      case g: (Inr r)
      obtain st1 cf where r: "r = (st1, cf)" by (cases r)
      from assms(1) p Inr g r
      have "replace_call_to_super (cf_classes cf) u cn = Inl e"
        by (auto simp: process_base_def Let_def split: prod.splits if_splits sum.splits)
      then show ?thesis by (rule replace_call_to_super_error)
    qed
  qed
qed

lemma same_frame_refl: "same_frame st st"
  by (simp add: same_frame_def)

lemma same_frame_trans: "same_frame a b \<Longrightarrow> same_frame b c \<Longrightarrow> same_frame a c"
  by (simp add: same_frame_def)

lemma fold_bases_frame:
  "fold_result (process_base env cn) (st, u) bases = Inr (st', u') \<Longrightarrow> same_frame st st'"
proof (induction bases arbitrary: st u)
  case Nil
  then show ?case by (simp add: same_frame_refl)
next
  case (Cons b bases)
  from Cons.prems obtain r where r: "process_base env cn (st, u) b = Inr r"
    and rest: "fold_result (process_base env cn) r bases = Inr (st', u')"
    by (auto split: sum.splits)
  obtain st1 u1 where r1: "r = (st1, u1)" by (cases r)
  have "same_frame st st1" using r r1 process_base_frame by blast
  moreover have "same_frame st1 st'" using rest r1 Cons.IH by blast
  ultimately show ?case by (rule same_frame_trans)
qed

lemma fold_bases_error:
  assumes "fold_result (process_base env cn) (st, u) bases = Inl e"
    and "\<forall>b \<in> set bases. imported_mapping st b \<noteq> None"
  shows "\<not> is_import_error e"
  using assms
proof (induction bases arbitrary: st u)
  case Nil
  then show ?case by simp
next
  case (Cons b bases)
  show ?case
  proof (cases "process_base env cn (st, u) b")
    case (Inl e')
    with Cons.prems(1) have "process_base env cn (st, u) b = Inl e" by simp
    moreover have "imported_mapping st b \<noteq> None" using Cons.prems(2) by simp
    ultimately show ?thesis by (rule process_base_error)
  next
    case (Inr r)
    obtain st1 u1 where r1: "r = (st1, u1)" by (cases r)
    have "same_frame st st1" using Inr r1 process_base_frame by blast
    then have "\<forall>b \<in> set bases. imported_mapping st1 b \<noteq> None"
      using Cons.prems(2) by (simp add: same_frame_def)
    moreover have "fold_result (process_base env cn) (st1, u1) bases = Inl e"
      using Cons.prems(1) Inr r1 by simp
    ultimately show ?thesis using Cons.IH by blast
  qed
qed

lemma base_names_error: "base_names mapping ks = Inl e \<Longrightarrow> \<not> is_import_error e"
proof (induction ks)
  case Nil
  then show ?case by simp
next
  case (Cons k ks)
  then show ?case by (cases k) (auto split: sum.splits)
qed

lemma leave_ClassDef_no_import_error:
  assumes "leave_ClassDef env st c = Inl e"
  shows "\<not> is_import_error e"
proof (cases "base_names (imported_mapping st) (cd_bases c)")
  case (Inl e')
  with assms have "e' = e" by (simp add: leave_ClassDef_def)
  with Inl show ?thesis by (auto dest: base_names_error)
next
  case (Inr bases)
  let ?st = "st\<lparr>global_scope_index := global_scope_index st + 100\<rparr>"
  from assms Inr have "fold_result (process_base env (cd_name c)) (?st, c) bases = Inl e"
    by (auto simp: leave_ClassDef_def Let_def split: sum.splits prod.splits if_splits)
  moreover have "\<forall>b \<in> set bases. imported_mapping ?st b \<noteq> None"
    using base_names_imported [OF Inr] by simp
  ultimately show ?thesis by (rule fold_bases_error)
qed

lemma base_names_unimported:
  "\<forall>b \<in> set ks. \<exists>n. b = NameBase n \<and> mapping n = None \<Longrightarrow> base_names mapping ks = Inr []"
  by (induction ks) auto

text \<open>
  Claim C6, as amended.  \<^verbatim>\<open>leave_ClassDef\<close> never raises the ImportError: the names of
  bases that are not keys of \<^verbatim>\<open>imported_mapping\<close> are filtered out before the loop over the
  bases, so the test that would raise it always fails.  A class all of whose bases are names
  that were never imported from a recognized path is recorded as it stands: under its name with
  the next insertion index, or as the configuration body when its name contains \<^verbatim>\<open>Config\<close>.
\<close>

theorem C6_unimported_base_is_skipped:
  "(\<forall>e. leave_ClassDef env st c = Inl e \<longrightarrow> \<not> is_import_error e)
   \<and> ((\<forall>b \<in> set (cd_bases c). \<exists>n. b = NameBase n \<and> imported_mapping st n = None) \<longrightarrow>
        leave_ClassDef env st c =
          Inr (if sublist ''Config'' (cd_name c)
               then st\<lparr>global_scope_index := global_scope_index st + 100,
                       config_body := Some [ClassDef c]\<rparr>
               else st\<lparr>global_scope_index := global_scope_index st + 100,
                       new_body := dict_set (StrKey (cd_name c))
                                     (global_scope_index st + 100, ClassDef c) (new_body st)\<rparr>))"
proof -
  have "leave_ClassDef env st c =
          Inr (if sublist ''Config'' (cd_name c)
               then st\<lparr>global_scope_index := global_scope_index st + 100,
                       config_body := Some [ClassDef c]\<rparr>
               else st\<lparr>global_scope_index := global_scope_index st + 100,
                       new_body := dict_set (StrKey (cd_name c))
                                     (global_scope_index st + 100, ClassDef c) (new_body st)\<rparr>)"
    if "\<forall>b \<in> set (cd_bases c). \<exists>n. b = NameBase n \<and> imported_mapping st n = None"
    using base_names_unimported [OF that] by (simp add: leave_ClassDef_def Let_def)
  then show ?thesis using leave_ClassDef_no_import_error by blast
qed

text \<open>
  The claim C6 as stated fails: a class whose only base was never imported is left without
  any exception.
\<close>

theorem C6_counterexample:
  "leave_ClassDef (example_env [] empty_finder) (init_converter ''foo'')
      \<lparr>cd_name = ''FooModel'', cd_bases = [NameBase ''BarModel''], cd_body = []\<rparr>
   = Inr ((init_converter ''foo'')
           \<lparr>global_scope_index := 100,
            new_body := [(StrKey ''FooModel'',
                          (100, ClassDef \<lparr>cd_name = ''FooModel'',
                                          cd_bases = [NameBase ''BarModel''], cd_body = []\<rparr>))]\<rparr>)"
  by (simp add: leave_ClassDef_def Let_def init_converter_def dict_set_def sublist_code)

theorem C6_unimported_base_is_skipped_witness:
  "leave_ClassDef (example_env [] empty_finder) (init_converter ''foo'')
      \<lparr>cd_name = ''Foo'', cd_bases = [NameBase ''Bar''], cd_body = []\<rparr>
   = Inr ((init_converter ''foo'')
           \<lparr>global_scope_index := 100,
            new_body := [(StrKey ''Foo'',
                          (100, ClassDef \<lparr>cd_name = ''Foo'',
                                          cd_bases = [NameBase ''Bar''], cd_body = []\<rparr>))]\<rparr>)"
  using C6_unimported_base_is_skipped
    [of "example_env [] empty_finder" "init_converter ''foo''"
        "\<lparr>cd_name = ''Foo'', cd_bases = [NameBase ''Bar''], cd_body = []\<rparr>"]
  by (simp add: init_converter_def dict_set_def sublist_code)









text \<open>The successful runs of \<^verbatim>\<open>leave_ClassDef\<close>, spelled out.\<close>

lemma leave_ClassDef_Inr:
  assumes "leave_ClassDef env st c = Inr st'"
  obtains bases st1 u where
    "base_names (imported_mapping st) (cd_bases c) = Inr bases"
    "fold_result (process_base env (cd_name c))
       (st\<lparr>global_scope_index := global_scope_index st + 100\<rparr>, c) bases = Inr (st1, u)"
    "sublist ''Config'' (cd_name c) \<longrightarrow> st' = st1\<lparr>config_body := Some [ClassDef u]\<rparr>"
    "\<not> sublist ''Config'' (cd_name c) \<longrightarrow>
       st' = st1\<lparr>new_body := dict_set (StrKey (cd_name c))
                               (global_scope_index st1, ClassDef u) (new_body st1)\<rparr>"
proof -
  from assms obtain bases where b: "base_names (imported_mapping st) (cd_bases c) = Inr bases"
    by (auto simp: leave_ClassDef_def Let_def split: sum.splits)
  from assms b obtain r where r: "fold_result (process_base env (cd_name c))
       (st\<lparr>global_scope_index := global_scope_index st + 100\<rparr>, c) bases = Inr r"
    by (auto simp: leave_ClassDef_def Let_def split: sum.splits)
  obtain st1 u where r1: "r = (st1, u)" by (cases r)
  from assms b r r1 have
    "sublist ''Config'' (cd_name c) \<longrightarrow> st' = st1\<lparr>config_body := Some [ClassDef u]\<rparr>"
    "\<not> sublist ''Config'' (cd_name c) \<longrightarrow>
       st' = st1\<lparr>new_body := dict_set (StrKey (cd_name c))
                               (global_scope_index st1, ClassDef u) (new_body st1)\<rparr>"
    by (auto simp: leave_ClassDef_def Let_def split: if_splits)
  with b r r1 show ?thesis using that by blast
qed

lemma body_frame_refl: "body_frame st st"
  by (simp add: body_frame_def)

lemma visit_aliases_frame:
  "visit_aliases env path st names = Inr st' \<Longrightarrow> body_frame st st'"
proof (induction names arbitrary: st)
  case Nil
  then show ?case by (simp add: body_frame_refl)
next
  case (Cons a names)
  show ?case
  proof (cases "import_search path")
    case None
    with Cons show ?thesis by simp
  next
    case (Some source)
    show ?thesis
    proof (cases "transformers_imports st path")
      case cached: (Some tree)
      let ?st = "st\<lparr>imported_mapping := (imported_mapping st)(alias_name a \<mapsto> path)\<rparr>"
      from Cons.prems Some cached have "visit_aliases env path ?st names = Inr st'"
        by (auto split: if_splits)
      from Cons.IH [OF this] show ?thesis by (simp add: body_frame_def)
    next
      case None
      from Cons.prems Some None obtain tree where t: "load_module env path = Inr tree"
        by (auto split: if_splits sum.splits)
      let ?st = "st\<lparr>transformers_imports := (transformers_imports st)(path \<mapsto> tree),
                     imported_mapping := (imported_mapping st)(alias_name a \<mapsto> path)\<rparr>"
      from Cons.prems Some None t have "visit_aliases env path ?st names = Inr st'"
        by (auto split: if_splits)
      from Cons.IH [OF this] show ?thesis by (simp add: body_frame_def)
    qed
  qed
qed

lemma visit_ImportFrom_frame:
  "visit_ImportFrom env st imp = Inr st' \<Longrightarrow> body_frame st st'"
  by (auto simp: visit_ImportFrom_def body_frame_refl
           split: module_ref.splits import_names.splits dest: visit_aliases_frame)

lemma leave_import_from_frame:
  assumes "leave_import_from st imp = Inr st'"
  shows "config_body st' = config_body st \<and> new_body st' = new_body st
         \<and> global_scope_index st' = global_scope_index st
         \<and> (all_imports st' = all_imports st
            \<or> all_imports st' = all_imports st @ [ImportFromLine imp])"
  using assms by (auto simp: leave_import_from_def split: module_ref.splits if_splits)

lemma visit_import_from_line:
  assumes "visit_statement env st (i, ImportFromLine imp) = Inr st'"
  shows "config_body st' = config_body st \<and> new_body st' = new_body st
         \<and> global_scope_index st' = global_scope_index st
         \<and> (all_imports st' = all_imports st
            \<or> all_imports st' = all_imports st @ [ImportFromLine imp])"
proof -
  from assms obtain st1 where v: "visit_ImportFrom env st imp = Inr st1"
    and l: "leave_import_from st1 imp = Inr st'"
    by (auto split: sum.splits)
  from visit_ImportFrom_frame [OF v] leave_import_from_frame [OF l]
  show ?thesis by (auto simp: body_frame_def)
qed

lemma leave_ClassDef_frame:
  assumes "leave_ClassDef env st c = Inr st'"
  shows "all_imports st' = all_imports st
         \<and> global_scope_index st' = global_scope_index st + 100
         \<and> (if sublist ''Config'' (cd_name c) then \<exists>u. config_body st' = Some [ClassDef u]
            else config_body st' = config_body st)"
proof -
  from assms obtain bases st1 u where
    f: "fold_result (process_base env (cd_name c))
       (st\<lparr>global_scope_index := global_scope_index st + 100\<rparr>, c) bases = Inr (st1, u)"
    and c1: "sublist ''Config'' (cd_name c) \<longrightarrow> st' = st1\<lparr>config_body := Some [ClassDef u]\<rparr>"
    and c2: "\<not> sublist ''Config'' (cd_name c) \<longrightarrow>
       st' = st1\<lparr>new_body := dict_set (StrKey (cd_name c))
                               (global_scope_index st1, ClassDef u) (new_body st1)\<rparr>"
    by (rule leave_ClassDef_Inr)
  have "same_frame (st\<lparr>global_scope_index := global_scope_index st + 100\<rparr>) st1"
    using f by (rule fold_bases_frame)
  then show ?thesis using c1 c2 by (cases "sublist ''Config'' (cd_name c)") (auto simp: same_frame_def)
qed

text \<open>What the visit of one statement does to the configuration body.\<close>

lemma visit_statement_config:
  assumes "visit_statement env st (i, n) = Inr st'"
  shows "if is_config_class n then \<exists>u. config_body st' = Some [ClassDef u]
         else config_body st' = config_body st"
proof (cases n)
  case (ImportLine code)
  with assms show ?thesis by auto
next
  case (ImportFromLine imp)
  with assms visit_import_from_line [of env st i imp st'] show ?thesis by simp
next
  case (AssignLine target code)
  with assms show ?thesis by (auto simp: add_global_def)
next
  case (OtherLine code)
  with assms show ?thesis by (auto simp: add_global_def)
next
  case (FunctionDef f)
  with assms show ?thesis by (auto simp: add_global_def)
next
  case (ClassDef c)
  with assms leave_ClassDef_frame [of env st c st'] show ?thesis by simp
next
  case (IfBlock test code)
  with assms show ?thesis by (auto simp: leave_If_def)
qed










lemma fold_config_one:
  assumes "fold_result (visit_statement env) st xs = Inr st'"
    and "config_body st = None \<or> (\<exists>u. config_body st = Some [ClassDef u])"
  shows "config_body st' = None \<or> (\<exists>u. config_body st' = Some [ClassDef u])"
  using assms
proof (induction xs arbitrary: st)
  case Nil
  then show ?case by simp
next
  case (Cons x xs)
  from Cons.prems(1) obtain s where s: "visit_statement env st x = Inr s"
    and r: "fold_result (visit_statement env) s xs = Inr st'"
    by (auto split: sum.splits)
  obtain i n where x: "x = (i, n)" by (cases x)
  have "config_body s = None \<or> (\<exists>u. config_body s = Some [ClassDef u])"
    using visit_statement_config [of env st i n s] s x Cons.prems(2) by (auto split: if_splits)
  with r show ?case by (rule Cons.IH)
qed







text \<open>After any number of statements the configuration body is absent or one class.\<close>

lemma config_body_at_most_one_class:
  assumes "fold_result (visit_statement env) (init_converter new_name) (enumerate 0 stmts) = Inr st"
  shows "config_body st = None \<or> (\<exists>u. config_body st = Some [ClassDef u])"
  using assms by (rule fold_config_one) (simp add: init_converter_def)


























end
